theory Spec2Isabelle
  imports Complex_Main
begin

section \<open>JavaScript values and strings\<close>

text \<open>
  The bridge is TypeScript. A JavaScript string is modelled as a \<^typ>\<open>string\<close>, one
  \<^typ>\<open>char\<close> per UTF-16 code unit, so \<open>length\<close> is the \<open>.length\<close> of the source.
  The values a tool input can hold (it arrives as JSON) are the datatype \<open>jsval\<close>; an
  object is the list of its own properties, each key once.
\<close>

datatype jsval =
    JUndefined
  | JNull
  | JBool bool
  | JNum int
  | JStr string
  | JArr "jsval list"
  | JObj "(string \<times> jsval) list"

text \<open>\<open>String.prototype.startsWith\<close> and \<open>String.prototype.includes\<close> (position 0).\<close>

fun startsWith :: "string \<Rightarrow> string \<Rightarrow> bool" where
  "startsWith s [] = True"
| "startsWith [] (p # ps) = False"
| "startsWith (c # cs) (p # ps) = (c = p \<and> startsWith cs ps)"

fun includes_str :: "string \<Rightarrow> string \<Rightarrow> bool" where
  "includes_str [] w = (w = [])"
| "includes_str (c # cs) w = (startsWith (c # cs) w \<or> includes_str cs w)"

text \<open>Truthiness, the \<open>||\<close> operator and the coercion \<open>String(v)\<close>.\<close>

fun truthy :: "jsval \<Rightarrow> bool" where
  "truthy JUndefined = False"
| "truthy JNull = False"
| "truthy (JBool b) = b"
| "truthy (JNum n) = (n \<noteq> 0)"
| "truthy (JStr s) = (s \<noteq> [])"
| "truthy (JArr xs) = True"
| "truthy (JObj kvs) = True"

definition js_or :: "jsval \<Rightarrow> jsval \<Rightarrow> jsval" where
  "js_or a b = (if truthy a then a else b)"

fun digit_char :: "nat \<Rightarrow> char" where
  "digit_char n = char_of (48 + n mod 10)"

fun nat_to_string :: "nat \<Rightarrow> string" where
  "nat_to_string n = (if n < 10 then [digit_char n] else nat_to_string (n div 10) @ [digit_char n])"

definition int_to_string :: "int \<Rightarrow> string" where
  "int_to_string i = (if i < 0 then CHR ''-'' # nat_to_string (nat (- i)) else nat_to_string (nat i))"

fun join :: "string \<Rightarrow> string list \<Rightarrow> string" where
  "join sep [] = []"
| "join sep [x] = x"
| "join sep (x # y # ys) = x @ sep @ join sep (y # ys)"

fun js_String :: "jsval \<Rightarrow> string" where
  "js_String JUndefined = ''undefined''"
| "js_String JNull = ''null''"
| "js_String (JBool b) = (if b then ''true'' else ''false'')"
| "js_String (JNum n) = int_to_string n"
| "js_String (JStr s) = s"
| "js_String (JArr xs) =
     join '','' (map (\<lambda>x. if x = JUndefined \<or> x = JNull then [] else js_String x) xs)"
| "js_String (JObj kvs) = ''[object Object]''"

text \<open>Property read \<open>obj.key\<close>: \<open>undefined\<close> when the property is absent.\<close>

definition js_get :: "(string \<times> jsval) list \<Rightarrow> string \<Rightarrow> jsval" where
  "js_get kvs k = (case map_of kvs k of None \<Rightarrow> JUndefined | Some v \<Rightarrow> v)"

section \<open>Permission broker (agent: \<open>requestEnhancedPermission\<close> and helpers)\<close>

datatype OperationType = Create | Read | Edit | Delete | Move | Search | Execute | Other

datatype Complexity = Simple | Moderate | Complex

record ToolOperationContext =
  toolName :: string
  input :: jsval
  operationType :: "OperationType option"
  affectedFiles :: "string list option"
  complexity :: "Complexity option"

datatype PermissionMode = Default | AcceptEdits | BypassPermissions | Plan

datatype PermissionOptionKind = allow_once | allow_always | reject_once | reject_always

record PermissionOption =
  optionId :: string
  name :: string
  kind :: PermissionOptionKind

text \<open>\<open>isValidInput\<close>: a non-null object that is not an array.\<close>

fun isValidInput :: "jsval \<Rightarrow> bool" where
  "isValidInput (JObj kvs) = True"
| "isValidInput v = False"

text \<open>\<open>isAutoApprovableOperation\<close>: \<open>readOnlyOperations.has(context.operationType || 'other')\<close>.\<close>

definition isAutoApprovableOperation :: "ToolOperationContext \<Rightarrow> bool" where
  "isAutoApprovableOperation context =
     ((case operationType context of None \<Rightarrow> Other | Some t \<Rightarrow> t) \<in> {Read, Search})"

definition dangerousCommands :: "string list" where
  "dangerousCommands = [''rm'', ''sudo'', ''chmod'', ''chown'', ''mv'', ''cp'', ''dd'']"

text \<open>The command string \<open>String(inputObj.command || '')\<close> of a valid input object.\<close>

fun commandString :: "jsval \<Rightarrow> string" where
  "commandString (JObj kvs) = js_String (js_or (js_get kvs ''command'') (JStr []))"
| "commandString v = []"

text \<open>
  \<open>requiresExplicitPermission\<close>. The first argument is \<open>process.cwd()\<close>, which the
  source reads when it tests the affected files.
\<close>

definition requiresExplicitPermission :: "string \<Rightarrow> ToolOperationContext \<Rightarrow> bool" where
  "requiresExplicitPermission cwd context =
     (if operationType context = Some Delete then True
      else if operationType context = Some Execute \<and> isValidInput (input context)
              \<and> list_ex (\<lambda>cmd. includes_str (commandString (input context)) cmd) dangerousCommands
      then True
      else (case affectedFiles context of
              None \<Rightarrow> False
            | Some files \<Rightarrow> list_ex (\<lambda>path. startsWith path ''/'' \<and> \<not> startsWith path cwd) files))"

text \<open>\<open>generatePermissionOptions\<close>.\<close>

definition generatePermissionOptions :: "ToolOperationContext \<Rightarrow> PermissionOption list" where
  "generatePermissionOptions context =
     [\<lparr>optionId = ''allow_once'', name = ''Allow this time'', kind = allow_once\<rparr>,
      \<lparr>optionId = ''reject_once'', name = ''Deny this time'', kind = reject_once\<rparr>]
     @ (if operationType context \<noteq> Some Delete
        then [\<lparr>optionId = ''allow_always'', name = ''Always allow this type of operation'',
                kind = allow_always\<rparr>]
        else [])
     @ [\<lparr>optionId = ''reject_always'', name = ''Never allow this type of operation'',
          kind = reject_always\<rparr>]"

text \<open>
  What a JavaScript \<open>throw\<close> can carry here: a \<open>RequestError\<close> (code, message, details),
  a \<open>ZodError\<close> (message, formatted issues), a plain \<open>Error\<close> (message), or a value that
  is no \<open>Error\<close> (its \<open>message\<close> property when it is an object with a string one, and
  what \<open>String(value)\<close> gives).
\<close>

datatype thrown =
    RequestError int string "string option"
  | ZodError string string
  | PlainError string
  | NonError "string option" string

datatype PlanPriority = high | medium | low

datatype PlanStatus = pending | in_progress | completed | failed

record PlanEntry =
  content :: string
  priority :: PlanPriority
  status :: PlanStatus

text \<open>
  \<open>AgentSession\<close>. \<open>pendingPrompt\<close> is the message iterator of the turn being streamed
  (here: whether it is non-null); \<open>abortController\<close> is \<open>None\<close> for \<open>null\<close> and
  otherwise holds \<open>signal.aborted\<close>.
\<close>

record AgentSession =
  pendingPrompt :: bool
  abortController :: "bool option"
  claudeSessionId :: "string option"
  permissionMode :: "PermissionMode option"
  currentPlan :: "PlanEntry list option"
  thoughtStreaming :: bool

definition getSession :: "(string \<rightharpoonup> AgentSession) \<Rightarrow> string \<Rightarrow> thrown + AgentSession" where
  "getSession sessions sessionId =
     (case sessions sessionId of
        None \<Rightarrow> Inl (PlainError (''Session '' @ sessionId @ '' not found''))
      | Some session \<Rightarrow> Inr session)"

text \<open>
  The outbound \<open>session/request_permission\<close>. The tool call's title, kind and locations
  come from the \<open>ToolEnhancer\<close>; they are carried as \<open>toolCallInfo\<close> and play no part in
  the decision.
\<close>

record 'i ACPRequestPermissionRequest =
  req_sessionId :: string
  req_toolCallId :: string
  req_toolCallInfo :: 'i
  req_rawInput :: jsval
  req_options :: "PermissionOption list"

datatype RequestPermissionOutcome = OutcomeCancelled | OutcomeSelected string | OutcomeOther

text \<open>
  \<open>requestEnhancedPermission\<close>. \<open>requestPermission\<close> is the host: what it answers to a
  request, or what the call throws. The result is the decision (\<open>True\<close> allows) with the
  requests that went out to the host, or the exception of \<open>getSession\<close>.
\<close>

definition requestEnhancedPermission ::
  "PermissionMode \<Rightarrow> string \<Rightarrow> (ToolOperationContext \<Rightarrow> 'i) \<Rightarrow> (string \<rightharpoonup> AgentSession)
   \<Rightarrow> ('i ACPRequestPermissionRequest \<Rightarrow> thrown + RequestPermissionOutcome)
   \<Rightarrow> string \<Rightarrow> string \<Rightarrow> ToolOperationContext
   \<Rightarrow> thrown + (bool \<times> 'i ACPRequestPermissionRequest list)" where
  "requestEnhancedPermission defaultPermissionMode cwd toolCallInfo sessions requestPermission
       sessionId toolCallId context =
     (case getSession sessions sessionId of
        Inl e \<Rightarrow> Inl e
      | Inr session \<Rightarrow>
          (let mode = (case permissionMode session of None \<Rightarrow> defaultPermissionMode | Some m \<Rightarrow> m)
           in if mode = BypassPermissions then Inr (True, [])
              else if mode = AcceptEdits \<and> isAutoApprovableOperation context then Inr (True, [])
              else if requiresExplicitPermission cwd context then
                (let permissionRequest =
                       \<lparr>req_sessionId = sessionId, req_toolCallId = toolCallId,
                        req_toolCallInfo = toolCallInfo context,
                        req_rawInput = (if isValidInput (input context) then input context
                                        else JUndefined),
                        req_options = generatePermissionOptions context\<rparr>
                 in case requestPermission permissionRequest of
                      Inl error \<Rightarrow>
                        Inr (mode = AcceptEdits \<and> isAutoApprovableOperation context,
                             [permissionRequest])
                    | Inr OutcomeCancelled \<Rightarrow> Inr (False, [permissionRequest])
                    | Inr (OutcomeSelected selectedId) \<Rightarrow>
                        Inr ((case find (\<lambda>opt. optionId opt = selectedId)
                                     (req_options permissionRequest) of
                                None \<Rightarrow> False
                              | Some selectedOption \<Rightarrow>
                                  kind selectedOption = allow_once
                                  \<or> kind selectedOption = allow_always),
                             [permissionRequest])
                    | Inr OutcomeOther \<Rightarrow> Inr (False, [permissionRequest]))
              else Inr (True, [])))"

section \<open>Prompt analysis (agent: \<open>analyzePromptComplexity\<close>, \<open>generatePromptSummary\<close>)\<close>

text \<open>
  \<open>toLowerCase\<close> on the letters \<open>A\<close> to \<open>Z\<close>; \<open>\s\<close> on the code units below 256
  (tab, line feed, vertical tab, form feed, carriage return, space, no-break space).
\<close>

definition lower_char :: "char \<Rightarrow> char" where
  "lower_char c =
     (if 65 \<le> (of_char c :: nat) \<and> (of_char c :: nat) \<le> 90
      then char_of ((of_char c :: nat) + 32) else c)"

definition toLowerCase :: "string \<Rightarrow> string" where
  "toLowerCase s = map lower_char s"

definition is_space :: "char \<Rightarrow> bool" where
  "is_space c = ((of_char c :: nat) \<in> {9, 10, 11, 12, 13, 32, 160})"

text \<open>\<open>s.split(/\s+/)\<close>: the pieces between the maximal runs of white space.\<close>

fun split_ws_from :: "string \<Rightarrow> bool \<Rightarrow> string \<Rightarrow> string list" where
  "split_ws_from cur inws [] = [cur]"
| "split_ws_from cur inws (c # cs) =
     (if is_space c
      then (if inws then split_ws_from cur True cs else cur # split_ws_from [] True cs)
      else split_ws_from (cur @ [c]) False cs)"

definition split_ws :: "string \<Rightarrow> string list" where
  "split_ws s = split_ws_from [] False s"

text \<open>\<open>s.split(/[.!?]/)[0]\<close>: the text before the first full stop, \<open>!\<close> or \<open>?\<close>.\<close>

definition first_sentence :: "string \<Rightarrow> string" where
  "first_sentence s = takeWhile (\<lambda>c. c \<notin> {CHR ''.'', CHR ''!'', CHR ''?''}) s"

definition generatePromptSummary :: "string \<Rightarrow> bool \<Rightarrow> string" where
  "generatePromptSummary prompt isComplex =
     (if \<not> isComplex then ''Processing simple request''
      else if length (split_ws prompt) \<le> 15 then prompt
      else (let firstSentence = first_sentence prompt
            in if length firstSentence \<le> 100 then firstSentence
               else take 97 firstSentence @ ''...''))"

record PromptComplexity =
  isComplex :: bool
  needsPlan :: bool
  summary :: string
  estimatedSteps :: nat

definition complexKeywords :: "string list" where
  "complexKeywords =
     [''implement'', ''create'', ''build'', ''refactor'', ''restructure'', ''migrate'', ''optimize'']"

definition multiStepIndicators :: "string list" where
  "multiStepIndicators = [''first'', ''then'', ''next'', ''after'', ''finally'', ''step'', ''phase'']"

definition PROMPT_COMPLEXITY_THRESHOLD :: nat where
  "PROMPT_COMPLEXITY_THRESHOLD = 200"

definition analyzePromptComplexity :: "string \<Rightarrow> PromptComplexity" where
  "analyzePromptComplexity prompt =
     (let lowerPrompt = toLowerCase prompt;
          hasComplexKeywords = list_ex (\<lambda>kw. includes_str lowerPrompt kw) complexKeywords;
          hasMultiStepIndicators =
            list_ex (\<lambda>ind. includes_str lowerPrompt ind) multiStepIndicators;
          isLongPrompt = (length prompt > PROMPT_COMPLEXITY_THRESHOLD);
          isComplex = (hasComplexKeywords \<or> hasMultiStepIndicators \<or> isLongPrompt);
          needsPlan = (isComplex \<and> (hasMultiStepIndicators \<or> isLongPrompt
              \<or> length (filter (\<lambda>kw. includes_str lowerPrompt kw) complexKeywords) > 1));
          estimatedSteps = 1 + (if hasMultiStepIndicators then 2 else 0)
              + (if hasComplexKeywords then 1 else 0) + (if isLongPrompt then 1 else 0)
      in \<lparr>isComplex = isComplex, needsPlan = needsPlan,
          summary = generatePromptSummary prompt isComplex,
          estimatedSteps = estimatedSteps\<rparr>)"

text \<open>
  The plan that \<open>generateAndSendPlan\<close> builds from the complexity record, before it is
  stored in the session and sent.
\<close>

definition generatePlan :: "PromptComplexity \<Rightarrow> PlanEntry list" where
  "generatePlan cx =
     (if estimatedSteps cx \<ge> 3
      then [\<lparr>content = ''Analyze requirements and approach'', priority = high,
              status = in_progress\<rparr>,
            \<lparr>content = ''Execute main implementation'', priority = high, status = pending\<rparr>,
            \<lparr>content = ''Validate and finalize changes'', priority = medium,
              status = pending\<rparr>]
      else [\<lparr>content = summary cx, priority = high, status = in_progress\<rparr>])"

text \<open>\<open>parsePromptPermissionMode\<close>; the first argument is \<open>this.defaultPermissionMode\<close>.\<close>

definition parsePromptPermissionMode ::
  "PermissionMode \<Rightarrow> string \<Rightarrow> PermissionMode option \<Rightarrow> PermissionMode" where
  "parsePromptPermissionMode defaultPermissionMode promptText currentMode =
     (if includes_str promptText ''[ACP:PERMISSION:ACCEPT_EDITS]'' then AcceptEdits
      else if includes_str promptText ''[ACP:PERMISSION:BYPASS]'' then BypassPermissions
      else if includes_str promptText ''[ACP:PERMISSION:DEFAULT]'' then Default
      else (case currentMode of None \<Rightarrow> defaultPermissionMode | Some m \<Rightarrow> m))"

text \<open>
  Follows the spec's words, not the source: the position at which a marker first occurs
  in a text (\<open>None\<close> when it does not occur), to say which marker "occurs first".
\<close>

fun spec_index_of :: "string \<Rightarrow> string \<Rightarrow> nat option" where
  "spec_index_of [] w = (if w = [] then Some 0 else None)"
| "spec_index_of (c # cs) w =
     (if startsWith (c # cs) w then Some 0 else map_option Suc (spec_index_of cs w))"

section \<open>Circuit breaker (\<open>circuit-breaker.ts\<close>)\<close>

datatype CircuitState = CLOSED | OPEN | HALF_OPEN

record CircuitBreakerOptions =
  failureThreshold :: int
  successThreshold :: int
  timeout :: int
  monitoringPeriod :: int

record CircuitBreaker =
  opts :: CircuitBreakerOptions
  state :: CircuitState
  failures :: int
  successes :: int
  nextAttempt :: int
  lastFailureTime :: "int option"
  lastSuccessTime :: "int option"
  totalCalls :: nat
  totalFailures :: nat
  totalSuccesses :: nat

text \<open>The breaker as the constructor leaves it.\<close>

definition newCircuitBreaker :: "CircuitBreakerOptions \<Rightarrow> CircuitBreaker" where
  "newCircuitBreaker options =
     \<lparr>opts = options, state = CLOSED, failures = 0, successes = 0, nextAttempt = 0,
      lastFailureTime = None, lastSuccessTime = None,
      totalCalls = 0, totalFailures = 0, totalSuccesses = 0\<rparr>"

definition CLAUDE_SDK_CIRCUIT_OPTIONS :: CircuitBreakerOptions where
  "CLAUDE_SDK_CIRCUIT_OPTIONS =
     \<lparr>failureThreshold = 8, successThreshold = 3, timeout = 10000, monitoringPeriod = 120000\<rparr>"

text \<open>
  Time is what \<open>Date.now()\<close> returns, in milliseconds. One \<open>execute\<close> reads the clock at
  up to four places; each reading is a field of \<open>BreakerClock\<close>, so nothing is assumed
  about how they relate: \<open>now_cleanup\<close> in \<open>cleanupOldFailures\<close>, \<open>now_open\<close> in the test
  of the OPEN state, \<open>now_outcome\<close> for \<open>lastSuccessTime\<close> or \<open>lastFailureTime\<close>, and
  \<open>now_reopen\<close> for \<open>nextAttempt\<close>.
\<close>

record BreakerClock =
  now_cleanup :: int
  now_open :: int
  now_outcome :: int
  now_reopen :: int

text \<open>The error of a fast failure: \<open>new Error('Circuit breaker is OPEN - failing fast')\<close>.\<close>

definition circuit_open_error :: thrown where
  "circuit_open_error = PlainError ''Circuit breaker is OPEN - failing fast''"

text \<open>
  \<open>cleanupOldFailures\<close>. The guard \<open>this.lastFailureTime && ...\<close> is false for an
  undefined time and for the time 0.
\<close>

definition cleanupOldFailures :: "int \<Rightarrow> CircuitBreaker \<Rightarrow> CircuitBreaker" where
  "cleanupOldFailures now cb =
     (let cutoff = now - monitoringPeriod (opts cb)
      in case lastFailureTime cb of
           None \<Rightarrow> cb
         | Some t \<Rightarrow> if t \<noteq> 0 \<and> t < cutoff then cb\<lparr>failures := max 0 (failures cb - 1)\<rparr>
                     else cb)"

definition onSuccess :: "int \<Rightarrow> CircuitBreaker \<Rightarrow> CircuitBreaker" where
  "onSuccess now cb =
     (let cb1 = cb\<lparr>lastSuccessTime := Some now, totalSuccesses := totalSuccesses cb + 1\<rparr>
      in if state cb1 = HALF_OPEN then
           (let cb2 = cb1\<lparr>successes := successes cb1 + 1\<rparr>
            in if successes cb2 \<ge> successThreshold (opts cb2)
               then cb2\<lparr>state := CLOSED, failures := 0, successes := 0\<rparr>
               else cb2)
         else if state cb1 = CLOSED then cb1\<lparr>failures := max 0 (failures cb1 - 1)\<rparr>
         else cb1\<lparr>state := CLOSED, failures := 0, successes := 0\<rparr>)"

definition onFailure :: "int \<Rightarrow> int \<Rightarrow> CircuitBreaker \<Rightarrow> CircuitBreaker" where
  "onFailure now nowReopen cb =
     (let cb1 = cb\<lparr>lastFailureTime := Some now, failures := failures cb + 1,
                   totalFailures := totalFailures cb + 1\<rparr>
      in if (state cb1 = CLOSED \<and> failures cb1 \<ge> failureThreshold (opts cb1))
            \<or> state cb1 = HALF_OPEN
         then cb1\<lparr>state := OPEN, nextAttempt := nowReopen + timeout (opts cb1)\<rparr>
         else cb1)"

text \<open>
  The part of \<open>execute\<close> before the wrapped function is called: count the call, decay old
  failures, and either fail fast or let the call through (an OPEN breaker whose time
  has come becomes HALF_OPEN with \<open>successes = 0\<close>).
\<close>

definition admit :: "BreakerClock \<Rightarrow> CircuitBreaker \<Rightarrow> thrown + CircuitBreaker" where
  "admit clock cb =
     (let cb1 = cleanupOldFailures (now_cleanup clock) (cb\<lparr>totalCalls := totalCalls cb + 1\<rparr>)
      in if state cb1 = OPEN then
           (if now_open clock < nextAttempt cb1 then Inl circuit_open_error
            else Inr (cb1\<lparr>state := HALF_OPEN, successes := 0\<rparr>))
         else Inr cb1)"

text \<open>
  \<open>execute\<close>. The wrapped function acts on a world \<open>'w\<close> that only it can change, and
  either throws or returns: a call that was not made leaves the world as it is. The
  result is what \<open>execute\<close> throws or returns, the breaker and the world afterwards.
  Calls are taken one at a time.
\<close>

definition execute ::
  "BreakerClock \<Rightarrow> ('w \<Rightarrow> (thrown + 'r) \<times> 'w) \<Rightarrow> CircuitBreaker \<Rightarrow> 'w
   \<Rightarrow> (thrown + 'r) \<times> CircuitBreaker \<times> 'w" where
  "execute clock fn cb w =
     (case admit clock cb of
        Inl e \<Rightarrow> (Inl e, cleanupOldFailures (now_cleanup clock)
                            (cb\<lparr>totalCalls := totalCalls cb + 1\<rparr>), w)
      | Inr cb2 \<Rightarrow>
          (case fn w of
             (Inr result, w') \<Rightarrow> (Inr result, onSuccess (now_outcome clock) cb2, w')
           | (Inl error, w') \<Rightarrow>
               (Inl error, onFailure (now_outcome clock) (now_reopen clock) cb2, w')))"

text \<open>A run of calls, each with its clock readings and the behaviour of the wrapped function.\<close>

fun execute_all ::
  "(BreakerClock \<times> ('w \<Rightarrow> (thrown + 'r) \<times> 'w)) list \<Rightarrow> CircuitBreaker \<Rightarrow> 'w
   \<Rightarrow> CircuitBreaker \<times> 'w" where
  "execute_all [] cb w = (cb, w)"
| "execute_all ((clock, fn) # calls) cb w =
     (case execute clock fn cb w of (r, cb', w') \<Rightarrow> execute_all calls cb' w')"

text \<open>All four readings of a clock lie between \<open>lo\<close> and \<open>hi\<close>.\<close>

definition clock_within :: "int \<Rightarrow> int \<Rightarrow> BreakerClock \<Rightarrow> bool" where
  "clock_within lo hi clock =
     (lo \<le> now_cleanup clock \<and> now_cleanup clock \<le> hi
      \<and> lo \<le> now_open clock \<and> now_open clock \<le> hi
      \<and> lo \<le> now_outcome clock \<and> now_outcome clock \<le> hi
      \<and> lo \<le> now_reopen clock \<and> now_reopen clock \<le> hi)"


definition forceOpen :: "int \<Rightarrow> int option \<Rightarrow> CircuitBreaker \<Rightarrow> CircuitBreaker" where
  "forceOpen now timeoutArg cb =
     cb\<lparr>state := OPEN,
        nextAttempt := now + (case timeoutArg of
                                None \<Rightarrow> timeout (opts cb)
                              | Some t \<Rightarrow> if t \<noteq> 0 then t else timeout (opts cb))\<rparr>"

definition forceClosed :: "CircuitBreaker \<Rightarrow> CircuitBreaker" where
  "forceClosed cb = cb\<lparr>state := CLOSED, failures := 0, successes := 0\<rparr>"

text \<open>A clock whose four readings are the same instant.\<close>

definition at_instant :: "int \<Rightarrow> BreakerClock" where
  "at_instant t = \<lparr>now_cleanup = t, now_open = t, now_outcome = t, now_reopen = t\<rparr>"

text \<open>
  Two invariants of the runs below: a CLOSED breaker with \<open>f\<close> failures counted, none
  of them older than \<open>T0\<close>; and a HALF_OPEN breaker with \<open>j\<close> successes counted.
\<close>

definition closed_with :: "CircuitBreakerOptions \<Rightarrow> int \<Rightarrow> int \<Rightarrow> CircuitBreaker \<Rightarrow> bool" where
  "closed_with options T0 f cb =
    (opts cb = options \<and> state cb = CLOSED \<and> failures cb = f
     \<and> (lastFailureTime cb = None \<or> (\<exists>t. lastFailureTime cb = Some t \<and> T0 \<le> t)))"

definition half_open_with :: "CircuitBreakerOptions \<Rightarrow> int \<Rightarrow> CircuitBreaker \<Rightarrow> bool" where
  "half_open_with options j cb = (opts cb = options \<and> state cb = HALF_OPEN \<and> successes cb = j)"

section \<open>Context monitor (\<open>context-monitor.ts\<close>)\<close>

datatype WarningLevel = warning | critical

datatype Role = user | assistant

text \<open>
  \<open>usage\<close> is a double in the source. The model keeps the exact ratio: the tokens are an
  integer, the quotient by 200000 is rounded to the nearest double and the literals
  \<open>0.8\<close> and \<open>0.95\<close> are the doubles nearest to \<open>160000/200000\<close> and \<open>190000/200000\<close>,
  so each comparison of the source has the outcome of the exact one. The warning's
  \<open>message\<close> (the percentage printed by \<open>toFixed\<close>) is left out.
\<close>

record SessionStats =
  usage :: rat
  estimatedTokens :: nat
  messages :: nat
  turnCount :: nat
  lastActivity :: int
  lastUpdate :: int

record ContextWarning =
  level :: WarningLevel
  warning_usage :: rat

record MonitorClock =
  now_activity :: int
  now_update :: int
  now_sweep :: int

definition CONTEXT_LIMIT :: nat where "CONTEXT_LIMIT = 200000"






text \<open>
  The statements of \<open>addMessage\<close> that mutate the session's statistics, from
  \<open>stats.estimatedTokens += tokens\<close> to \<open>stats.lastUpdate = new Date()\<close>.
\<close>

definition updateStats :: "MonitorClock \<Rightarrow> nat \<Rightarrow> Role option \<Rightarrow> SessionStats \<Rightarrow> SessionStats" where
  "updateStats clock tokens role stats0 =
     (let stats1 = stats0\<lparr>estimatedTokens := estimatedTokens stats0 + tokens\<rparr>;
          stats2 = stats1\<lparr>usage := min ((of_nat (estimatedTokens stats1) :: rat)
                                          / of_nat CONTEXT_LIMIT) 1\<rparr>;
          stats3 = stats2\<lparr>messages := messages stats2 + 1\<rparr>;
          stats4 = (if role = Some user then stats3\<lparr>turnCount := turnCount stats3 + 1\<rparr>
                    else stats3)
      in stats4\<lparr>lastActivity := now_activity clock, lastUpdate := now_update clock\<rparr>)"





section \<open>The agent's prompt turn (agent: \<open>prompt\<close>, \<open>executePrompt\<close>)\<close>

text \<open>
  What the agent sends to the host with \<open>client.sessionUpdate\<close>: the session id and the
  update. The connection's \<open>sendNotification\<close> catches every write error, so sending
  never throws. \<open>tool_call\<close> and \<open>tool_call_update\<close> stand for the updates of
  \<open>handleMessage\<close>, their payload not looked into.
\<close>

datatype SessionUpdate =
    agent_message_chunk string
  | agent_thought_chunk string
  | plan "PlanEntry list"
  | tool_call string
  | tool_call_update string

datatype StopReason = end_turn | cancelled

datatype ContentBlock = TextBlock string | OtherBlock

text \<open>
  The messages of the backend are of a type \<open>'m\<close>. \<open>handleMessage\<close> is taken by what it
  sends to the host and by whether it throws; \<open>messageSessionId\<close> is the \<open>session_id\<close>
  of a message that carries one (a string). While \<open>executePrompt\<close> runs, nothing else
  writes \<open>permissionMode\<close>, \<open>pendingPrompt\<close> or \<open>abortController\<close> of its session but
  an abort of the turn's controller, which is the oracle \<open>abortedAt\<close> below.
\<close>

record 'm AgentConfig =
  defaultPermissionMode :: PermissionMode
  handleMessage :: "'m \<Rightarrow> SessionUpdate list \<times> thrown option"
  messageSessionId :: "'m \<Rightarrow> string option"

text \<open>A stream of backend messages: the messages, then its end or what it throws.\<close>

datatype 'm MessageStream = MessageStream "'m list" "thrown option"

text \<open>
  What the surroundings answer during one turn: \<open>promptSlot\<close> and \<open>querySlot\<close> are the
  results of the two \<open>globalResourceManager.startOperation\<close> calls (in \<open>prompt\<close> and in
  \<open>executePrompt\<close>); \<open>contextWarning\<close> is what \<open>contextMonitor.addMessage\<close> returned for
  the prompt text; \<open>breakerClock\<close> are the clock readings of the breaker's \<open>execute\<close>;
  \<open>queryResult\<close> is what the SDK's \<open>query\<close> does if it is called; \<open>abortedAt i\<close> tells
  whether \<open>cancel\<close> has aborted the turn's controller by the time \<open>i\<close> messages of the
  stream have been taken.
\<close>

record 'm TurnEnv =
  promptSlot :: bool
  contextWarning :: "ContextWarning option"
  querySlot :: bool
  breakerClock :: BreakerClock
  queryResult :: "thrown + 'm MessageStream"
  abortedAt :: "nat \<Rightarrow> bool"

text \<open>
  The agent: its sessions, its circuit breaker, the arguments of every \<open>query\<close> call made
  so far (prompt text, permission mode, resume id) and all that was sent to the host.
\<close>

record AgentState =
  sessions :: "string \<rightharpoonup> AgentSession"
  claudeSDKCircuitBreaker :: CircuitBreaker
  queryLog :: "(string \<times> PermissionMode \<times> string option) list"
  sent :: "(string \<times> SessionUpdate) list"

definition sessionUpdate :: "string \<Rightarrow> SessionUpdate \<Rightarrow> AgentState \<Rightarrow> AgentState" where
  "sessionUpdate sid u st = st\<lparr>sent := sent st @ [(sid, u)]\<rparr>"

text \<open>
  A write to the session object. The object that \<open>executePrompt\<close> holds is the one
  stored under its id; the write shows in the held value and in the agent's map (when
  the id is registered there).
\<close>

definition writeSession ::
  "string \<Rightarrow> (AgentSession \<Rightarrow> AgentSession) \<Rightarrow> AgentSession \<times> AgentState
   \<Rightarrow> AgentSession \<times> AgentState" where
  "writeSession sid f p =
     (case p of (session, st) \<Rightarrow>
        (f session,
         st\<lparr>sessions := (case sessions st sid of
                             None \<Rightarrow> sessions st
                           | Some s \<Rightarrow> (sessions st)(sid \<mapsto> f s))\<rparr>))"

text \<open>\<open>error instanceof Error ? error.message : String(error)\<close>.\<close>

fun errorMessageOf :: "thrown \<Rightarrow> string" where
  "errorMessageOf (RequestError c m d) = m"
| "errorMessageOf (ZodError m formatted) = m"
| "errorMessageOf (PlainError m) = m"
| "errorMessageOf (NonError mp str) = str"

definition sendErrorMessage :: "string \<Rightarrow> thrown \<Rightarrow> AgentState \<Rightarrow> AgentState" where
  "sendErrorMessage sid error st =
     (let errorMessage = errorMessageOf error;
          isCircuitBreaker = includes_str errorMessage ''Circuit breaker is OPEN'';
          text = (if isCircuitBreaker
                  then ''[RETRY] Service temporarily unavailable - retrying automatically''
                  else ''[ERROR] Error: '' @ errorMessage)
      in sessionUpdate sid (agent_message_chunk text) st)"

text \<open>
  \<open>sendContextWarning\<close>. \<open>Math.round\<close> is taken on the exact ratio; the double of the
  source can round the other way when the percentage is an exact half.
\<close>

definition sendContextWarning :: "string \<Rightarrow> ContextWarning \<Rightarrow> AgentState \<Rightarrow> AgentState" where
  "sendContextWarning sid w st =
     (let usagePercent = int_to_string \<lfloor>warning_usage w * 100 + 1 / 2\<rfloor>;
          text = (if level w = critical
                  then ''Context near limit ('' @ usagePercent @ ''%) - consider new session''
                  else ''Context usage: '' @ usagePercent @ ''%'')
      in sessionUpdate sid (agent_message_chunk text) st)"

text \<open>
  \<open>reportBypassMode\<close>. Its text begins with two arrow signs outside ASCII, written here
  as the bytes of their UTF-8 form.
\<close>

definition reportBypassMode :: "string \<Rightarrow> AgentState \<Rightarrow> AgentState" where
  "reportBypassMode sid st =
     sessionUpdate sid
       (agent_message_chunk
          ([CHR 0xE2, CHR 0x8F, CHR 0xB5, CHR 0xE2, CHR 0x8F, CHR 0xB5]
           @ '' bypass mode active - permissions will be bypassed for file operations'')) st"

definition sendAgentThought :: "string \<Rightarrow> string \<Rightarrow> AgentState \<Rightarrow> AgentState" where
  "sendAgentThought sid thought st = sessionUpdate sid (agent_thought_chunk thought) st"

text \<open>
  \<open>generateAndSendPlan\<close>: the plan is stored in the session and sent. On the wire the
  first entry also carries a \<open>title\<close> of mode indicators, left out here.
\<close>

definition generateAndSendPlan ::
  "string \<Rightarrow> PromptComplexity \<Rightarrow> AgentState \<Rightarrow> thrown + AgentState" where
  "generateAndSendPlan sid cx st =
     (case getSession (sessions st) sid of
        Inl e \<Rightarrow> Inl e
      | Inr session \<Rightarrow>
          Inr (sessionUpdate sid (plan (generatePlan cx))
                 (st\<lparr>sessions := (sessions st)(sid \<mapsto>
                                      session\<lparr>currentPlan := Some (generatePlan cx)\<rparr>)\<rparr>)))"

fun blockText :: "ContentBlock \<Rightarrow> string" where
  "blockText (TextBlock t) = t"
| "blockText OtherBlock = []"

text \<open>The prompt text: the text blocks joined with nothing between them.\<close>

definition promptTextOf :: "ContentBlock list \<Rightarrow> string" where
  "promptTextOf blocks = concat (map blockText blocks)"

text \<open>\<open>session.abortController?.signal.aborted\<close> when \<open>i\<close> messages have been taken.\<close>

definition isAborted :: "'m TurnEnv \<Rightarrow> nat \<Rightarrow> AgentSession \<Rightarrow> bool" where
  "isAborted env i session =
     (case abortController session of None \<Rightarrow> False | Some a \<Rightarrow> a \<or> abortedAt env i)"

text \<open>
  The \<open>try\<close> block of \<open>executePrompt\<close> up to the assignment of \<open>session.pendingPrompt\<close>:
  what it throws, or the stream of the backend.
\<close>

definition startTurn ::
  "'m AgentConfig \<Rightarrow> 'm TurnEnv \<Rightarrow> ContentBlock list \<Rightarrow> AgentSession \<Rightarrow> string \<Rightarrow> AgentState
   \<Rightarrow> (thrown + 'm MessageStream) \<times> AgentSession \<times> AgentState" where
  "startTurn cfg env blocks session sid st =
     (let promptText = promptTextOf blocks;
          st1 = (case contextWarning env of
                   None \<Rightarrow> st
                 | Some w \<Rightarrow> sendContextWarning sid w st);
          previousPermissionMode = permissionMode session;
          newMode = parsePromptPermissionMode (defaultPermissionMode cfg) promptText
                      previousPermissionMode;
          p2 = writeSession sid (\<lambda>s. s\<lparr>permissionMode := Some newMode\<rparr>) (session, st1);
          session2 = fst p2;
          st3 = (if newMode = BypassPermissions
                    \<and> previousPermissionMode \<noteq> Some BypassPermissions
                 then reportBypassMode sid (snd p2) else snd p2);
          cx = analyzePromptComplexity promptText;
          st4 = (if thoughtStreaming session2 \<and> isComplex cx
                 then sendAgentThought sid (''Analyzing request: '' @ summary cx) st3
                 else st3)
      in case (if needsPlan cx then generateAndSendPlan sid cx st4 else Inr st4) of
           Inl e \<Rightarrow> (Inl e, session2, st4)
         | Inr st5 \<Rightarrow>
             if \<not> querySlot env
             then (Inl (PlainError ''System resources exhausted - cannot execute Claude query''),
                   session2, st5)
             else (case execute (breakerClock env)
                          (\<lambda>calls. (queryResult env,
                                  calls @ [(promptText, newMode, claudeSessionId session2)]))
                          (claudeSDKCircuitBreaker st5) (queryLog st5) of
                     (Inl e, cb, calls) \<Rightarrow>
                       (Inl e, session2, st5\<lparr>claudeSDKCircuitBreaker := cb, queryLog := calls\<rparr>)
                   | (Inr stream, cb, calls) \<Rightarrow>
                       (case writeSession sid (\<lambda>s. s\<lparr>pendingPrompt := True\<rparr>)
                               (session2,
                                st5\<lparr>claudeSDKCircuitBreaker := cb, queryLog := calls\<rparr>) of
                          (session6, st6) \<Rightarrow> (Inr stream, session6, st6))))"

text \<open>
  The \<open>for await\<close> loop, message \<open>i\<close> first. It ends with a stop reason or with what was
  thrown, and with the number of messages taken.
\<close>

fun processMessages ::
  "'m AgentConfig \<Rightarrow> 'm TurnEnv \<Rightarrow> string \<Rightarrow> nat \<Rightarrow> 'm list \<Rightarrow> thrown option
   \<Rightarrow> AgentSession \<times> AgentState \<Rightarrow> (thrown + StopReason) \<times> nat \<times> AgentSession \<times> AgentState"
  where
  "processMessages cfg env sid i [] ending p =
     (case ending of
        Some e \<Rightarrow> (Inl e, i, p)
      | None \<Rightarrow> (Inr end_turn, i, writeSession sid (\<lambda>s. s\<lparr>pendingPrompt := False\<rparr>) p))"
| "processMessages cfg env sid i (message # rest) ending p =
     (if isAborted env i (fst p) then (Inr cancelled, i, p)
      else (let p1 = (case messageSessionId cfg message of
                        None \<Rightarrow> p
                      | Some csid \<Rightarrow> writeSession sid (\<lambda>s. s\<lparr>claudeSessionId := Some csid\<rparr>) p);
                handled = handleMessage cfg message;
                p2 = (fst p1, (snd p1)\<lparr>sent := sent (snd p1) @ map (Pair sid) (fst handled)\<rparr>)
            in case snd handled of
                 Some e \<Rightarrow> (Inl e, Suc i, p2)
               | None \<Rightarrow> processMessages cfg env sid (Suc i) rest ending p2))"

text \<open>The \<open>finally\<close> block, and the \<open>catch\<close> block before it.\<close>

definition finishTurn :: "string \<Rightarrow> StopReason \<Rightarrow> AgentSession \<times> AgentState \<Rightarrow> StopReason \<times> AgentState"
  where
  "finishTurn sid reason p =
     (reason, snd (writeSession sid (\<lambda>s. s\<lparr>pendingPrompt := False, abortController := None\<rparr>) p))"

definition catchTurn ::
  "'m TurnEnv \<Rightarrow> string \<Rightarrow> thrown \<Rightarrow> nat \<Rightarrow> AgentSession \<times> AgentState \<Rightarrow> StopReason \<times> AgentState"
  where
  "catchTurn env sid error i p =
     (if isAborted env i (fst p) then finishTurn sid cancelled p
      else finishTurn sid end_turn (fst p, sendErrorMessage sid error (snd p)))"

definition executePrompt ::
  "'m AgentConfig \<Rightarrow> 'm TurnEnv \<Rightarrow> ContentBlock list \<Rightarrow> AgentSession \<Rightarrow> string \<Rightarrow> AgentState
   \<Rightarrow> StopReason \<times> AgentState" where
  "executePrompt cfg env blocks session sid st =
     (case startTurn cfg env blocks session sid st of
        (Inl e, session1, st1) \<Rightarrow> catchTurn env sid e 0 (session1, st1)
      | (Inr (MessageStream msgs ending), session1, st1) \<Rightarrow>
          (case processMessages cfg env sid 0 msgs ending (session1, st1) of
             (Inr reason, i, p) \<Rightarrow> finishTurn sid reason p
           | (Inl e, i, p) \<Rightarrow> catchTurn env sid e i p))"

text \<open>
  \<open>prompt\<close>: what it throws or the stop reason it resolves with. The wrapper
  \<open>withPerformanceTracking\<close> hands both through unchanged. A controller left on the
  session is aborted first (the wait of 100 ms that follows changes nothing here), and
  then a new one takes its place in the session: the aborted one is no longer reachable
  from the session, whose \<open>abortController\<close> is what \<open>executePrompt\<close> reads.
\<close>

definition prompt ::
  "'m AgentConfig \<Rightarrow> 'm TurnEnv \<Rightarrow> string \<Rightarrow> ContentBlock list \<Rightarrow> AgentState
   \<Rightarrow> (thrown + StopReason) \<times> AgentState" where
  "prompt cfg env sid blocks st =
     (case getSession (sessions st) sid of
        Inl e \<Rightarrow> (Inl e, st)
      | Inr session \<Rightarrow>
          if pendingPrompt session
          then (Inl (PlainError ''Session is busy processing another prompt''), st)
          else (let p0 = (case abortController session of
                            None \<Rightarrow> (session, st)
                          | Some a \<Rightarrow>
                              writeSession sid (\<lambda>s. s\<lparr>abortController := Some True\<rparr>)
                                (session, st))
                in case writeSession sid (\<lambda>s. s\<lparr>abortController := Some False\<rparr>) p0 of
                     (session1, st1) \<Rightarrow>
                       if \<not> promptSlot env
                       then (Inl (PlainError
                                    ''System resources exhausted - cannot process prompt''),
                             st1)
                       else (case executePrompt cfg env blocks session1 sid st1 of
                               (reason, st2) \<Rightarrow> (Inr reason, st2))))"

text \<open>
  \<open>cancel\<close>: the controller of the session, if there is one, is aborted and the
  session's \<open>pendingPrompt\<close> is cleared.
\<close>

definition cancel :: "string \<Rightarrow> AgentState \<Rightarrow> AgentState" where
  "cancel sid st =
     (case sessions st sid of
        None \<Rightarrow> st
      | Some session \<Rightarrow>
          (case abortController session of
             None \<Rightarrow> st
           | Some a \<Rightarrow>
               st\<lparr>sessions := (sessions st)(sid \<mapsto>
                      session\<lparr>abortController := Some True, pendingPrompt := False\<rparr>)\<rparr>))"

section \<open>The connection (protocol: \<open>Connection\<close>, \<open>RequestError\<close>)\<close>

text \<open>
  A JSON-RPC result: \<open>{result}\<close> or \<open>{error: {code, message, data}}\<close>, the data being
  the \<open>details\<close> of a \<open>RequestError\<close>. Its constructor keeps the details only when they
  are a non-empty string.
\<close>

datatype 'r Result = ResultOf 'r | ErrorOf int string "string option"

definition newRequestError :: "int \<Rightarrow> string \<Rightarrow> string option \<Rightarrow> thrown" where
  "newRequestError code message details =
     RequestError code message
       (case details of None \<Rightarrow> None | Some d \<Rightarrow> if d = [] then None else Some d)"

definition invalidParams :: "string option \<Rightarrow> thrown" where
  "invalidParams details = newRequestError (- 32602) ''Invalid params'' details"

definition internalError :: "string option \<Rightarrow> thrown" where
  "internalError details = newRequestError (- 32603) ''Internal error'' details"

definition sessionBusy :: "string option \<Rightarrow> thrown" where
  "sessionBusy sessionId =
     newRequestError (- 32002)
       (''Session busy: '' @ (case sessionId of
                                None \<Rightarrow> ''unknown''
                              | Some s \<Rightarrow> if s = [] then ''unknown'' else s))
       sessionId"

fun toResult :: "thrown \<Rightarrow> 'r Result" where
  "toResult (RequestError code message details) = ErrorOf code message details"
| "toResult other = ErrorOf (- 32603) ''Internal error'' None"

text \<open>\<open>#tryCallHandler\<close>, on what the handler returned or threw.\<close>

fun tryCallHandler :: "thrown + 'r \<Rightarrow> 'r Result" where
  "tryCallHandler (Inr r) = ResultOf r"
| "tryCallHandler (Inl (RequestError code message details)) =
     toResult (RequestError code message details)"
| "tryCallHandler (Inl (ZodError message formatted)) = toResult (invalidParams (Some formatted))"
| "tryCallHandler (Inl (PlainError message)) = toResult (internalError (Some message))"
| "tryCallHandler (Inl (NonError messageProperty str)) = toResult (internalError messageProperty)"

text \<open>
  The \<open>id\<close> of a message on the wire. The type \<open>AnyResponse\<close> of the source allows a
  string or a number; \<open>IdNull\<close> is JSON's \<open>null\<close>, which that type leaves out.
\<close>

datatype rpc_id = IdNull | IdString string | IdNumber int

text \<open>
  What the connection writes: an error response (id, code, message, data) or any other
  message, as \<open>#processMessage\<close> sends them.
\<close>

datatype 'o Wire = WireError rpc_id int string string | WireOther 'o

definition sendParseError :: "string \<Rightarrow> 'o Wire list" where
  "sendParseError errorMessage =
     [WireError (IdString ''parse-error'') (- 32700) ''Parse error'' errorMessage]"

text \<open>\<open>String.prototype.trim\<close> and \<open>split\<close> at a non-empty separator.\<close>

definition trim :: "string \<Rightarrow> string" where
  "trim s = rev (dropWhile is_space (rev (dropWhile is_space s)))"

function split_from :: "string \<Rightarrow> string \<Rightarrow> string \<Rightarrow> string list" where
  "split_from sep cur [] = [cur]"
| "split_from sep cur (c # cs) =
     (if sep \<noteq> [] \<and> startsWith (c # cs) sep
      then cur # split_from sep [] (drop (length sep) (c # cs))
      else split_from sep (cur @ [c]) cs)"
  by pat_completeness auto
termination
  by (relation "measure (\<lambda>(sep, cur, s). length s)") auto

definition split_str :: "string \<Rightarrow> string \<Rightarrow> string list" where
  "split_str s sep = split_from sep [] s"

text \<open>
  The loop over the lines of one chunk. \<open>parse\<close> is \<open>JSON.parse\<close>: the decoded message,
  or the message of the error it throws. \<open>processMessage\<close> is \<open>#processMessage\<close> by
  the messages it writes; it catches whatever goes wrong inside it, so only
  \<open>JSON.parse\<close> can reach the \<open>catch\<close> of the loop.
\<close>

fun processLines ::
  "(string \<Rightarrow> string + 'j) \<Rightarrow> ('j \<Rightarrow> 'o list) \<Rightarrow> string list \<Rightarrow> 'o Wire list" where
  "processLines parse processMessage [] = []"
| "processLines parse processMessage (line # lines) =
     (let trimmedLine = trim line
      in (if trimmedLine \<noteq> []
          then (case parse trimmedLine of
                  Inr message \<Rightarrow> map WireOther (processMessage message)
                | Inl errorMessage \<Rightarrow> sendParseError errorMessage)
          else []))
     @ processLines parse processMessage lines"

text \<open>
  One round of \<open>#receive\<close> on a connection that is not destroyed: the text kept from
  the chunks before and what has been written so far, then the same after the chunk.
\<close>

definition receiveChunk ::
  "string \<Rightarrow> (string \<Rightarrow> string + 'j) \<Rightarrow> ('j \<Rightarrow> 'o list) \<Rightarrow> string \<times> 'o Wire list \<Rightarrow> string
   \<Rightarrow> string \<times> 'o Wire list" where
  "receiveChunk EOL parse processMessage conn chunk =
     (let lines = split_str (fst conn @ chunk) EOL
      in (last lines, snd conn @ processLines parse processMessage (butlast lines)))"

text \<open>
  The messages that reach the agent's \<open>prompt\<close> and \<open>cancel\<close>: a \<open>session/prompt\<close>
  request (its id, the session, the prompt) and a \<open>session/cancel\<close> notification, both
  with parameters that pass the schema.
\<close>

datatype Incoming =
    PromptRequest rpc_id string "ContentBlock list"
  | CancelNotification string

text \<open>
  \<open>#receive\<close> with \<open>#processMessage\<close> on such messages. The loop awaits
  \<open>#processMessage\<close> for one message before it takes the next, and \<open>#processMessage\<close>
  awaits the handler and the write of the response: a message is handed to the agent
  only when the handler of the message before it has returned, whenever the peer wrote
  it. Each message comes with what the surroundings answer while it is handled. The
  result lists the responses written, in order, and the agent's state at the end.
\<close>

fun receiveMessages ::
  "'m AgentConfig \<Rightarrow> (Incoming \<times> 'm TurnEnv) list \<Rightarrow> AgentState
   \<Rightarrow> (rpc_id \<times> StopReason Result) list \<times> AgentState" where
  "receiveMessages cfg [] st = ([], st)"
| "receiveMessages cfg ((PromptRequest requestId sid blocks, env) # rest) st =
     (case prompt cfg env sid blocks st of
        (outcome, st1) \<Rightarrow>
          (case receiveMessages cfg rest st1 of
             (responses, st2) \<Rightarrow> ((requestId, tryCallHandler outcome) # responses, st2)))"
| "receiveMessages cfg ((CancelNotification sid, env) # rest) st =
     receiveMessages cfg rest (cancel sid st)"

text \<open>No session of the agent has a prompt pending.\<close>

definition idle :: "AgentState \<Rightarrow> bool" where
  "idle st = (\<forall>k s. sessions st k = Some s \<longrightarrow> \<not> pendingPrompt s)"

text \<open>
  The permission mode of a session, read both from the session object held by the
  turn and from the agent's session map.
\<close>

definition mode_is :: "string \<Rightarrow> PermissionMode \<Rightarrow> AgentSession \<times> AgentState \<Rightarrow> bool" where
  "mode_is sid m p =
     (permissionMode (fst p) = Some m
      \<and> map_option permissionMode (sessions (snd p) sid) = Some (Some m))"

text \<open>
  Follows the spec's words, not the source: the tokens of a command string, split at
  white space. The source never tokenises; this is only what the spec's "first token or
  any token" is read as.
\<close>

fun spec_tokens_from :: "string \<Rightarrow> string \<Rightarrow> string list" where
  "spec_tokens_from cur [] = (if cur = [] then [] else [cur])"
| "spec_tokens_from cur (c # cs) =
     (if c \<in> {CHR '' '', CHR 0x09, CHR 0x0A, CHR 0x0D}
      then (if cur = [] then [] else [cur]) @ spec_tokens_from [] cs
      else spec_tokens_from (cur @ [c]) cs)"

definition spec_command_tokens :: "string \<Rightarrow> string list" where
  "spec_command_tokens s = spec_tokens_from [] s"

text \<open>
  Follows the spec's words, not the source: a path "lexically contained within" a
  directory "after normalization". A path is cut at \<open>/\<close>; empty segments and \<open>.\<close> are
  dropped and \<open>..\<close> takes the segment before it away (at the root it stays at the
  root); the path is contained in the directory when the directory's segments begin
  the path's. The source normalises nothing.
\<close>

fun spec_split_slash :: "string \<Rightarrow> string \<Rightarrow> string list" where
  "spec_split_slash cur [] = [cur]"
| "spec_split_slash cur (c # cs) =
     (if c = CHR ''/'' then cur # spec_split_slash [] cs
      else spec_split_slash (cur @ [c]) cs)"

fun spec_resolve :: "string list \<Rightarrow> string list \<Rightarrow> string list" where
  "spec_resolve acc [] = rev acc"
| "spec_resolve acc (s # ss) =
     (if s = [] \<or> s = ''.'' then spec_resolve acc ss
      else if s = ''..'' then spec_resolve (tl acc) ss
      else spec_resolve (s # acc) ss)"

definition spec_normalize :: "string \<Rightarrow> string list" where
  "spec_normalize p = spec_resolve [] (spec_split_slash [] p)"

definition spec_contained :: "string \<Rightarrow> string \<Rightarrow> bool" where
  "spec_contained cwd p =
     (take (length (spec_normalize cwd)) (spec_normalize p) = spec_normalize cwd)"

section \<open>String helpers meet their specification\<close>

lemma startsWith_iff: "startsWith s p \<longleftrightarrow> (\<exists>r. s = p @ r)"
  by (induction s p rule: startsWith.induct) auto

lemma includes_str_iff: "includes_str s w \<longleftrightarrow> (\<exists>a b. s = a @ w @ b)"
proof (induction s)
  case Nil
  then show ?case by auto
next
  case (Cons c cs)
  show ?case
  proof
    assume "includes_str (c # cs) w"
    then consider "startsWith (c # cs) w" | "includes_str cs w" by auto
    then show "\<exists>a b. c # cs = a @ w @ b"
    proof cases
      case 1
      then obtain r where "c # cs = w @ r" by (auto simp: startsWith_iff)
      then have "c # cs = [] @ w @ r" by simp
      then show ?thesis by blast
    next
      case 2
      then obtain a b where "cs = a @ w @ b" using Cons.IH by auto
      then have "c # cs = (c # a) @ w @ b" by simp
      then show ?thesis by blast
    qed
  next
    assume "\<exists>a b. c # cs = a @ w @ b"
    then obtain a b where ab: "c # cs = a @ w @ b" by auto
    show "includes_str (c # cs) w"
    proof (cases a)
      case Nil
      then have "startsWith (c # cs) w" using ab by (auto simp: startsWith_iff)
      then show ?thesis by simp
    next
      case (Cons x xs)
      then have "cs = xs @ w @ b" using ab by simp
      then have "includes_str cs w" using Cons.IH by auto
      then show ?thesis by simp
    qed
  qed
qed

section \<open>Circuit breaker: steps and runs\<close>


lemma cleanupOldFailures_fields [simp]:
  "state (cleanupOldFailures now cb) = state cb"
  "successes (cleanupOldFailures now cb) = successes cb"
  "nextAttempt (cleanupOldFailures now cb) = nextAttempt cb"
  "opts (cleanupOldFailures now cb) = opts cb"
  "lastFailureTime (cleanupOldFailures now cb) = lastFailureTime cb"
  by (simp_all add: cleanupOldFailures_def Let_def split: option.splits)

lemma cleanupOldFailures_recent:
  "lastFailureTime cb = None \<or> (\<exists>t. lastFailureTime cb = Some t \<and> now - monitoringPeriod (opts cb) \<le> t)
   \<Longrightarrow> failures (cleanupOldFailures now cb) = failures cb"
  by (auto simp: cleanupOldFailures_def Let_def split: option.splits)

lemma execute_all_append:
  "execute_all (xs @ ys) cb w =
     (case execute_all xs cb w of (cb', w') \<Rightarrow> execute_all ys cb' w')"
  by (induction xs arbitrary: cb w) (auto split: prod.splits)


lemma execute_failure_closed:
  assumes "closed_with options T0 f cb"
    and "clock_within T0 (T0 + monitoringPeriod options) clock"
    and "isl (fst (fn w))"
  shows "let cb' = fst (snd (execute clock fn cb w)) in
           opts cb' = options \<and> failures cb' = f + 1
           \<and> (\<exists>t. lastFailureTime cb' = Some t \<and> T0 \<le> t)
           \<and> state cb' = (if f + 1 \<ge> failureThreshold options then OPEN else CLOSED)"
proof -
  obtain e w' where fw: "fn w = (Inl e, w')"
    using assms(3) by (cases "fn w"; cases "fst (fn w)") auto
  let ?cb0 = "cb\<lparr>totalCalls := totalCalls cb + 1\<rparr>"
  have nodecay: "failures (cleanupOldFailures (now_cleanup clock) ?cb0) = f"
  proof -
    have "lastFailureTime ?cb0 = None \<or> (\<exists>t. lastFailureTime ?cb0 = Some t
            \<and> now_cleanup clock - monitoringPeriod (opts ?cb0) \<le> t)"
      using assms(1,2) by (auto simp: closed_with_def clock_within_def)
    from cleanupOldFailures_recent[OF this] show ?thesis
      using assms(1) by (simp add: closed_with_def)
  qed
  have adm: "admit clock cb = Inr (cleanupOldFailures (now_cleanup clock) ?cb0)"
    using assms(1) by (simp add: admit_def Let_def closed_with_def)
  show ?thesis
    using assms(1,2) nodecay
    by (simp add: execute_def adm fw onFailure_def Let_def closed_with_def clock_within_def)
qed

lemma failures_stay_closed:
  assumes "closed_with options T0 f cb"
    and "\<forall>(clock, fn) \<in> set calls. clock_within T0 (T0 + monitoringPeriod options) clock
            \<and> (\<forall>w. isl (fst (fn w)))"
    and "f + int (length calls) < failureThreshold options"
  shows "closed_with options T0 (f + int (length calls)) (fst (execute_all calls cb w))"
  using assms
proof (induction calls arbitrary: cb w f)
  case Nil
  then show ?case by simp
next
  case (Cons c calls)
  obtain clock fn where c: "c = (clock, fn)" by (cases c)
  obtain r cb' w' where ex: "execute clock fn cb w = (r, cb', w')" by (cases "execute clock fn cb w")
  have cw: "clock_within T0 (T0 + monitoringPeriod options) clock" and fl: "isl (fst (fn w))"
    using Cons.prems(2) c by auto
  have step: "closed_with options T0 (f + 1) cb'"
    using execute_failure_closed[where fn=fn and w=w, OF Cons.prems(1) cw fl] ex Cons.prems(3)
    by (auto simp: closed_with_def Let_def)
  have "closed_with options T0 (f + 1 + int (length calls)) (fst (execute_all calls cb' w'))"
    using Cons.IH[OF step] Cons.prems(2,3) by auto
  then show ?case using c ex by (simp add: algebra_simps)
qed

lemma new_closed_with: "closed_with options T0 0 (newCircuitBreaker options)"
  by (simp add: closed_with_def newCircuitBreaker_def)

lemma threshold_failures_open:
  assumes "1 \<le> N" and "failureThreshold options = int N" and "length calls = N"
    and "\<forall>(clock, fn) \<in> set calls. clock_within T0 (T0 + monitoringPeriod options) clock
            \<and> (\<forall>w. isl (fst (fn w)))"
  shows "state (fst (execute_all calls (newCircuitBreaker options) w)) = OPEN"
    and "\<forall>k<N. state (fst (execute_all (take k calls) (newCircuitBreaker options) w)) = CLOSED"
proof -
  have pre: "\<And>k. k < N \<Longrightarrow>
      closed_with options T0 (int k) (fst (execute_all (take k calls) (newCircuitBreaker options) w))"
  proof -
    fix k assume k: "k < N"
    have a: "\<forall>(clock, fn) \<in> set (take k calls). clock_within T0 (T0 + monitoringPeriod options) clock
            \<and> (\<forall>w. isl (fst (fn w)))"
      using assms(4) by (meson in_set_takeD)
    have b: "0 + int (length (take k calls)) < failureThreshold options"
      using k assms(2,3) by simp
    have "closed_with options T0 (0 + int (length (take k calls)))
            (fst (execute_all (take k calls) (newCircuitBreaker options) w))"
      by (rule failures_stay_closed[OF new_closed_with a b])
    then show "closed_with options T0 (int k) (fst (execute_all (take k calls) (newCircuitBreaker options) w))"
      using k assms(3) by simp
  qed
  show "\<forall>k<N. state (fst (execute_all (take k calls) (newCircuitBreaker options) w)) = CLOSED"
    using pre by (auto simp: closed_with_def)
  have ne: "calls \<noteq> []" using assms(1,3) by auto
  then have split: "calls = take (N - 1) calls @ [last calls]"
    using assms(3) by (metis butlast_conv_take append_butlast_last_id)
  obtain clock fn where lc: "last calls = (clock, fn)" by (cases "last calls")
  obtain cb1 w1 where run: "execute_all (take (N - 1) calls) (newCircuitBreaker options) w = (cb1, w1)"
    by (cases "execute_all (take (N - 1) calls) (newCircuitBreaker options) w")
  have c1: "closed_with options T0 (int (N - 1)) cb1"
    using pre[of "N - 1"] assms(1) run by simp
  have "last calls \<in> set calls" using ne by simp
  then have cw: "clock_within T0 (T0 + monitoringPeriod options) clock" and fl: "isl (fst (fn w1))"
    using assms(4) lc by auto
  have "state (fst (snd (execute clock fn cb1 w1))) = OPEN"
    using execute_failure_closed[where fn=fn and w=w1, OF c1 cw fl] assms(1,2) by (simp add: Let_def)
  moreover have "execute_all calls (newCircuitBreaker options) w
      = execute_all [(clock, fn)] cb1 w1"
    using run by (subst split) (simp add: execute_all_append lc)
  ultimately show "state (fst (execute_all calls (newCircuitBreaker options) w)) = OPEN"
    by (simp split: prod.splits)
qed


lemma execute_open_fails_fast:
  assumes "state cb = OPEN" and "now_open clock < nextAttempt cb"
  shows "fst (execute clock fn cb w) = Inl circuit_open_error"
    and "snd (snd (execute clock fn cb w)) = w"
    and "state (fst (snd (execute clock fn cb w))) = OPEN"
    and "nextAttempt (fst (snd (execute clock fn cb w))) = nextAttempt cb"
  using assms by (simp_all add: execute_def admit_def Let_def)

lemma admit_open_due:
  assumes "state cb = OPEN" and "nextAttempt cb \<le> now_open clock"
  shows "\<exists>cb2. admit clock cb = Inr cb2 \<and> state cb2 = HALF_OPEN \<and> successes cb2 = 0
           \<and> opts cb2 = opts cb"
  using assms by (simp add: admit_def Let_def)

lemma admit_half_open:
  assumes "state cb = HALF_OPEN"
  shows "\<exists>cb2. admit clock cb = Inr cb2 \<and> state cb2 = HALF_OPEN \<and> successes cb2 = successes cb
           \<and> opts cb2 = opts cb"
  using assms by (simp add: admit_def Let_def)

lemma execute_admitted:
  assumes "admit clock cb = Inr cb2"
  shows "execute clock fn cb w =
     (case fn w of
        (Inr result, w') \<Rightarrow> (Inr result, onSuccess (now_outcome clock) cb2, w')
      | (Inl error, w') \<Rightarrow> (Inl error, onFailure (now_outcome clock) (now_reopen clock) cb2, w'))"
  using assms by (simp add: execute_def)

lemma onSuccess_half_open:
  assumes "state cb2 = HALF_OPEN"
  shows "opts (onSuccess now cb2) = opts cb2"
    and "successes cb2 + 1 < successThreshold (opts cb2) \<Longrightarrow>
           state (onSuccess now cb2) = HALF_OPEN \<and> successes (onSuccess now cb2) = successes cb2 + 1"
    and "successThreshold (opts cb2) \<le> successes cb2 + 1 \<Longrightarrow> state (onSuccess now cb2) = CLOSED"
  using assms by (simp_all add: onSuccess_def Let_def)

lemma onFailure_half_open:
  assumes "state cb2 = HALF_OPEN"
  shows "state (onFailure now nowReopen cb2) = OPEN"
    and "nextAttempt (onFailure now nowReopen cb2) = nowReopen + timeout (opts cb2)"
  using assms by (simp_all add: onFailure_def Let_def)


lemma execute_success_half_open:
  assumes "half_open_with options j cb" and "\<not> isl (fst (fn w))"
  shows "opts (fst (snd (execute clock fn cb w))) = options"
    and "j + 1 < successThreshold options \<Longrightarrow>
           half_open_with options (j + 1) (fst (snd (execute clock fn cb w)))"
    and "successThreshold options \<le> j + 1 \<Longrightarrow> state (fst (snd (execute clock fn cb w))) = CLOSED"
proof -
  obtain r w' where fw: "fn w = (Inr r, w')"
    using assms(2) by (cases "fn w"; cases "fst (fn w)") auto
  obtain cb2 where adm: "admit clock cb = Inr cb2" and h: "state cb2 = HALF_OPEN"
    and s: "successes cb2 = j" and o: "opts cb2 = options"
    using admit_half_open[of cb clock] assms(1) by (auto simp: half_open_with_def)
  have ex: "execute clock fn cb w = (Inr r, onSuccess (now_outcome clock) cb2, w')"
    by (simp add: execute_admitted[OF adm] fw)
  show "opts (fst (snd (execute clock fn cb w))) = options"
    using onSuccess_half_open(1)[OF h] o by (simp add: ex)
  show "j + 1 < successThreshold options \<Longrightarrow>
           half_open_with options (j + 1) (fst (snd (execute clock fn cb w)))"
    using onSuccess_half_open(1,2)[OF h] o s by (simp add: ex half_open_with_def)
  show "successThreshold options \<le> j + 1 \<Longrightarrow> state (fst (snd (execute clock fn cb w))) = CLOSED"
    using onSuccess_half_open(3)[OF h] o s by (simp add: ex)
qed

lemma successes_stay_half_open:
  assumes "half_open_with options j cb"
    and "\<forall>(clock, fn) \<in> set calls. \<forall>w. \<not> isl (fst (fn w))"
    and "j + int (length calls) < successThreshold options"
  shows "half_open_with options (j + int (length calls)) (fst (execute_all calls cb w))"
  using assms
proof (induction calls arbitrary: cb w j)
  case Nil
  then show ?case by simp
next
  case (Cons c calls)
  obtain clock fn where c: "c = (clock, fn)" by (cases c)
  obtain r cb' w' where ex: "execute clock fn cb w = (r, cb', w')" by (cases "execute clock fn cb w")
  have ok: "\<not> isl (fst (fn w))" using Cons.prems(2) c by auto
  have step: "half_open_with options (j + 1) cb'"
    using execute_success_half_open(2)[where fn=fn and w=w, OF Cons.prems(1) ok, of clock] ex Cons.prems(3)
    by simp
  have "half_open_with options (j + 1 + int (length calls)) (fst (execute_all calls cb' w'))"
    using Cons.IH[OF step] Cons.prems(2,3) by auto
  then show ?case using c ex by (simp add: algebra_simps)
qed

lemma threshold_successes_close:
  assumes "half_open_with options j cb"
    and "\<forall>(clock, fn) \<in> set calls. \<forall>w. \<not> isl (fst (fn w))"
    and "calls \<noteq> []"
    and "j + int (length calls) = successThreshold options"
  shows "state (fst (execute_all calls cb w)) = CLOSED"
proof -
  have split: "calls = butlast calls @ [last calls]" using assms(3) by simp
  obtain clock fn where lc: "last calls = (clock, fn)" by (cases "last calls")
  obtain cb1 w1 where run: "execute_all (butlast calls) cb w = (cb1, w1)"
    by (cases "execute_all (butlast calls) cb w")
  have a: "\<forall>(clock, fn) \<in> set (butlast calls). \<forall>w. \<not> isl (fst (fn w))"
    using assms(2) by (meson in_set_butlastD)
  have b: "j + int (length (butlast calls)) < successThreshold options"
    using assms(3,4) by (cases calls rule: rev_cases) auto
  have h1: "half_open_with options (j + int (length (butlast calls))) cb1"
    using successes_stay_half_open[OF assms(1) a b, of w] run by simp
  have "last calls \<in> set calls" using assms(3) by simp
  then have ok: "\<not> isl (fst (fn w1))" using assms(2) lc by auto
  have c: "successThreshold options \<le> j + int (length (butlast calls)) + 1"
    using assms(3,4) by (cases calls rule: rev_cases) auto
  have "state (fst (snd (execute clock fn cb1 w1))) = CLOSED"
    using execute_success_half_open(3)[where fn=fn and w=w1, OF h1 ok c] .
  moreover have "execute_all calls cb w = execute_all [(clock, fn)] cb1 w1"
    using run by (subst split) (simp add: execute_all_append lc)
  ultimately show ?thesis by (simp split: prod.splits)
qed


lemma execute_success_open_due:
  assumes "state cb = OPEN" and "opts cb = options" and "nextAttempt cb \<le> now_open clock"
    and "\<not> isl (fst (fn w))"
  shows "1 < successThreshold options \<Longrightarrow>
           half_open_with options 1 (fst (snd (execute clock fn cb w)))"
    and "successThreshold options \<le> 1 \<Longrightarrow> state (fst (snd (execute clock fn cb w))) = CLOSED"
proof -
  obtain r w' where fw: "fn w = (Inr r, w')"
    using assms(4) by (cases "fn w"; cases "fst (fn w)") auto
  obtain cb2 where adm: "admit clock cb = Inr cb2" and h: "state cb2 = HALF_OPEN"
    and s: "successes cb2 = 0" and o: "opts cb2 = options"
    using admit_open_due[OF assms(1,3)] assms(2) by auto
  have ex: "execute clock fn cb w = (Inr r, onSuccess (now_outcome clock) cb2, w')"
    by (simp add: execute_admitted[OF adm] fw)
  show "1 < successThreshold options \<Longrightarrow>
           half_open_with options 1 (fst (snd (execute clock fn cb w)))"
    using onSuccess_half_open(1,2)[OF h] o s by (simp add: ex half_open_with_def)
  show "successThreshold options \<le> 1 \<Longrightarrow> state (fst (snd (execute clock fn cb w))) = CLOSED"
    using onSuccess_half_open(3)[OF h] o s by (simp add: ex)
qed

lemma successes_from_open:
  assumes "state cb = OPEN" and "opts cb = options" and "nextAttempt cb \<le> now_open clock"
    and "\<forall>w. \<not> isl (fst (fn w))"
    and "\<forall>(clock, fn) \<in> set rest. \<forall>w. \<not> isl (fst (fn w))"
  shows "1 + int (length rest) < successThreshold options \<Longrightarrow>
           half_open_with options (1 + int (length rest))
             (fst (execute_all ((clock, fn) # rest) cb w))"
    and "1 + int (length rest) = successThreshold options \<Longrightarrow>
           state (fst (execute_all ((clock, fn) # rest) cb w)) = CLOSED"
proof -
  obtain r cb' w' where ex: "execute clock fn cb w = (r, cb', w')" by (cases "execute clock fn cb w")
  have ok: "\<not> isl (fst (fn w))" using assms(4) by simp
  note first = execute_success_open_due[where fn=fn and w=w, OF assms(1,2,3) ok]
  show "1 + int (length rest) < successThreshold options \<Longrightarrow>
           half_open_with options (1 + int (length rest))
             (fst (execute_all ((clock, fn) # rest) cb w))"
  proof -
    assume lt: "1 + int (length rest) < successThreshold options"
    then have "1 < successThreshold options \<or> rest = []" by auto
    have h1: "half_open_with options 1 cb'" using first(1) lt ex by simp
    show ?thesis
      using successes_stay_half_open[OF h1 assms(5) lt, of w'] ex by simp
  qed
  show "1 + int (length rest) = successThreshold options \<Longrightarrow>
           state (fst (execute_all ((clock, fn) # rest) cb w)) = CLOSED"
  proof -
    assume eq: "1 + int (length rest) = successThreshold options"
    show ?thesis
    proof (cases rest)
      case Nil
      then show ?thesis using first(2) eq ex by simp
    next
      case (Cons a list)
      then have ne: "rest \<noteq> []" by simp
      have h1: "half_open_with options 1 cb'" using first(1) eq ex Cons by simp
      show ?thesis
        using threshold_successes_close[OF h1 assms(5) ne eq, of w'] ex by simp
    qed
  qed
qed

lemma execute_failure_half_open:
  assumes "state cb = HALF_OPEN" and "isl (fst (fn w))"
  shows "state (fst (snd (execute clock fn cb w))) = OPEN"
    and "nextAttempt (fst (snd (execute clock fn cb w))) = now_reopen clock + timeout (opts cb)"
proof -
  obtain e w' where fw: "fn w = (Inl e, w')"
    using assms(2) by (cases "fn w"; cases "fst (fn w)") auto
  obtain cb2 where adm: "admit clock cb = Inr cb2" and h: "state cb2 = HALF_OPEN"
    and o: "opts cb2 = opts cb"
    using admit_half_open[OF assms(1), of clock] by auto
  have ex: "execute clock fn cb w
      = (Inl e, onFailure (now_outcome clock) (now_reopen clock) cb2, w')"
    by (simp add: execute_admitted[OF adm] fw)
  show "state (fst (snd (execute clock fn cb w))) = OPEN"
    using onFailure_half_open(1)[OF h] by (simp add: ex)
  show "nextAttempt (fst (snd (execute clock fn cb w))) = now_reopen clock + timeout (opts cb)"
    using onFailure_half_open(2)[OF h] o by (simp add: ex)
qed

lemma half_open_prefixes:
  assumes "state cb = OPEN" and "nextAttempt cb \<le> now_open clock"
    and "\<forall>w. \<not> isl (fst (fn w))"
    and "\<forall>(clock, fn) \<in> set rest. \<forall>w. \<not> isl (fst (fn w))"
    and "1 + int (length rest) = successThreshold (opts cb)"
    and "k < length rest"
  shows "state (fst (execute_all ((clock, fn) # take k rest) cb w)) = HALF_OPEN"
proof -
  have a: "\<forall>(clock, fn) \<in> set (take k rest). \<forall>w. \<not> isl (fst (fn w))"
    using assms(4) by (meson in_set_takeD)
  have b: "1 + int (length (take k rest)) < successThreshold (opts cb)"
    using assms(5,6) by simp
  have "half_open_with (opts cb) (1 + int (length (take k rest)))
          (fst (execute_all ((clock, fn) # take k rest) cb w))"
    by (rule successes_from_open(1)[OF assms(1) refl assms(2,3) a b])
  then show ?thesis by (simp add: half_open_with_def)
qed

section \<open>Context monitor: what one call does\<close>










lemma updateStats_fields [simp]:
  "estimatedTokens (updateStats clock tokens role st) = estimatedTokens st + tokens"
  "usage (updateStats clock tokens role st)
     = min ((of_nat (estimatedTokens st + tokens) :: rat) / of_nat CONTEXT_LIMIT) 1"
  "lastActivity (updateStats clock tokens role st) = now_activity clock"
  by (simp_all add: updateStats_def Let_def)
















section \<open>The prompt turn: what each step leaves\<close>

lemma sessionUpdate_fields [simp]:
  "sessions (sessionUpdate sid u st) = sessions st"
  "sent (sessionUpdate sid u st) = sent st @ [(sid, u)]"
  "queryLog (sessionUpdate sid u st) = queryLog st"
  "claudeSDKCircuitBreaker (sessionUpdate sid u st) = claudeSDKCircuitBreaker st"
  by (simp_all add: sessionUpdate_def)

lemma writeSession_fields [simp]:
  "fst (writeSession sid f p) = f (fst p)"
  "sent (snd (writeSession sid f p)) = sent (snd p)"
  "queryLog (snd (writeSession sid f p)) = queryLog (snd p)"
  "claudeSDKCircuitBreaker (snd (writeSession sid f p)) = claudeSDKCircuitBreaker (snd p)"
  "sessions (snd (writeSession sid f p)) sid = map_option f (sessions (snd p) sid)"
  by (cases p; simp add: writeSession_def split: option.splits)+


lemma sendErrorMessage_fields [simp]:
  "sessions (sendErrorMessage sid e st) = sessions st"
  "queryLog (sendErrorMessage sid e st) = queryLog st"
  by (simp_all add: sendErrorMessage_def Let_def)

lemma finishTurn_fields [simp]:
  "fst (finishTurn sid reason p) = reason"
  "sent (snd (finishTurn sid reason p)) = sent (snd p)"
  "queryLog (snd (finishTurn sid reason p)) = queryLog (snd p)"
  "sessions (snd (finishTurn sid reason p)) sid
     = map_option (\<lambda>s. s\<lparr>pendingPrompt := False, abortController := None\<rparr>) (sessions (snd p) sid)"
  by (simp_all add: finishTurn_def)






lemma other_sends_fields [simp]:
  "sessions (sendContextWarning sid w st) = sessions st"
  "queryLog (sendContextWarning sid w st) = queryLog st"
  "claudeSDKCircuitBreaker (sendContextWarning sid w st) = claudeSDKCircuitBreaker st"
  "sessions (reportBypassMode sid st) = sessions st"
  "queryLog (reportBypassMode sid st) = queryLog st"
  "claudeSDKCircuitBreaker (reportBypassMode sid st) = claudeSDKCircuitBreaker st"
  "sessions (sendAgentThought sid t st) = sessions st"
  "queryLog (sendAgentThought sid t st) = queryLog st"
  "claudeSDKCircuitBreaker (sendAgentThought sid t st) = claudeSDKCircuitBreaker st"
  by (simp_all add: sendContextWarning_def reportBypassMode_def sendAgentThought_def Let_def)

lemma generateAndSendPlan_cases:
  "generateAndSendPlan sid cx st = Inl e \<Longrightarrow> sessions st sid = None"
  "generateAndSendPlan sid cx st = Inr st' \<Longrightarrow>
     queryLog st' = queryLog st \<and> claudeSDKCircuitBreaker st' = claudeSDKCircuitBreaker st
     \<and> (\<exists>s. sessions st sid = Some s
            \<and> sessions st' = (sessions st)(sid \<mapsto> s\<lparr>currentPlan := Some (generatePlan cx)\<rparr>))"
  by (auto simp: generateAndSendPlan_def getSession_def split: option.splits)

lemma mode_is_writeSession:
  assumes "mode_is sid m p" and "\<And>s. permissionMode (f s) = permissionMode s"
  shows "mode_is sid m (writeSession sid f p)"
  using assms by (auto simp: mode_is_def)

lemma mode_is_sent:
  "mode_is sid m (s, st\<lparr>sent := x\<rparr>) = mode_is sid m (s, st)"
  by (simp add: mode_is_def)

lemma startTurn_mode:
  assumes "sessions st sid = Some s0"
  shows "mode_is sid (parsePromptPermissionMode (defaultPermissionMode cfg) (promptTextOf blocks)
                        (permissionMode session))
           (snd (startTurn cfg env blocks session sid st))"
  using assms
  unfolding startTurn_def Let_def mode_is_def
  by (auto simp: generateAndSendPlan_def getSession_def
      split: option.splits sum.splits prod.splits if_splits)

lemma processMessages_mode:
  assumes "mode_is sid m p"
  shows "mode_is sid m (snd (snd (processMessages cfg env sid i msgs ending p)))"
  using assms
proof (induction msgs arbitrary: i p)
  case Nil
  then show ?case
    by (cases ending) (auto intro: mode_is_writeSession)
next
  case (Cons message rest)
  let ?p1 = "(case messageSessionId cfg message of
                None \<Rightarrow> p
              | Some csid \<Rightarrow> writeSession sid (\<lambda>s. s\<lparr>claudeSessionId := Some csid\<rparr>) p)"
  let ?p2 = "(fst ?p1, (snd ?p1)\<lparr>sent := sent (snd ?p1)
                 @ map (Pair sid) (fst (handleMessage cfg message))\<rparr>)"
  have m1: "mode_is sid m ?p1"
    using Cons.prems by (auto split: option.splits intro: mode_is_writeSession)
  have m2: "mode_is sid m ?p2"
    using m1 by (simp add: mode_is_def)
  show ?case
  proof (cases "isAborted env i (fst p)")
    case True
    then show ?thesis using Cons.prems by simp
  next
    case False
    show ?thesis
    proof (cases "snd (handleMessage cfg message)")
      case None
      then show ?thesis
        using False Cons.IH[OF m2, of "Suc i"] by (simp add: Let_def)
    next
      case (Some e)
      then show ?thesis
        using False m2 by (simp add: Let_def)
    qed
  qed
qed

lemma processMessages_queryLog:
  "queryLog (snd (snd (snd (processMessages cfg env sid i msgs ending p)))) = queryLog (snd p)"
proof (induction msgs arbitrary: i p)
  case Nil
  then show ?case by (cases ending) auto
next
  case (Cons message rest)
  show ?case
    by (cases "isAborted env i (fst p)"; cases "snd (handleMessage cfg message)";
        cases "messageSessionId cfg message")
       (simp_all add: Let_def Cons.IH)
qed

lemma mode_is_finishTurn:
  assumes "mode_is sid m p"
  shows "map_option permissionMode (sessions (snd (finishTurn sid reason p)) sid) = Some (Some m)"
  using assms by (auto simp: mode_is_def)

lemma mode_is_catchTurn:
  assumes "mode_is sid m p"
  shows "map_option permissionMode (sessions (snd (catchTurn env sid e i p)) sid) = Some (Some m)"
proof (cases "isAborted env i (fst p)")
  case True
  then show ?thesis using mode_is_finishTurn[OF assms] by (simp add: catchTurn_def)
next
  case False
  have mm: "mode_is sid m (fst p, sendErrorMessage sid e (snd p))"
    using assms by (simp add: mode_is_def)
  show ?thesis
    using False mode_is_finishTurn[OF mm, of end_turn] by (simp add: catchTurn_def)
qed

lemma catchTurn_queryLog [simp]:
  "queryLog (snd (catchTurn env sid e i p)) = queryLog (snd p)"
  by (simp add: catchTurn_def)

lemma executePrompt_mode:
  assumes "sessions st sid = Some s0"
  shows "map_option permissionMode (sessions (snd (executePrompt cfg env blocks session sid st)) sid)
     = Some (Some (parsePromptPermissionMode (defaultPermissionMode cfg) (promptTextOf blocks)
                     (permissionMode session)))"
proof -
  let ?m = "parsePromptPermissionMode (defaultPermissionMode cfg) (promptTextOf blocks)
              (permissionMode session)"
  obtain r session1 st1 where s: "startTurn cfg env blocks session sid st = (r, session1, st1)"
    by (cases "startTurn cfg env blocks session sid st")
  have m1: "mode_is sid ?m (session1, st1)"
    using startTurn_mode[OF assms, of cfg blocks session env] s by simp
  show ?thesis
  proof (cases r)
    case (Inl e)
    then show ?thesis
      using s mode_is_catchTurn[OF m1] by (simp add: executePrompt_def)
  next
    case (Inr stream)
    obtain msgs ending where st: "stream = MessageStream msgs ending" by (cases stream)
    obtain r2 i p where pm: "processMessages cfg env sid 0 msgs ending (session1, st1) = (r2, i, p)"
      by (cases "processMessages cfg env sid 0 msgs ending (session1, st1)")
    have m2: "mode_is sid ?m p"
      using processMessages_mode[OF m1, of cfg env 0 msgs ending] pm by simp
    show ?thesis
      using s Inr st pm mode_is_catchTurn[OF m2] mode_is_finishTurn[OF m2]
      by (cases r2) (simp_all add: executePrompt_def)
  qed
qed

lemma startTurn_queryLog:
  "queryLog (snd (snd (startTurn cfg env blocks session sid st))) = queryLog st
   \<or> queryLog (snd (snd (startTurn cfg env blocks session sid st)))
       = queryLog st @ [(promptTextOf blocks,
            parsePromptPermissionMode (defaultPermissionMode cfg) (promptTextOf blocks)
              (permissionMode session),
            claudeSessionId session)]"
  unfolding startTurn_def Let_def
  by (auto simp: generateAndSendPlan_def getSession_def execute_def admit_def
      split: option.splits sum.splits prod.splits if_splits)

lemma executePrompt_queryLog:
  "queryLog (snd (executePrompt cfg env blocks session sid st))
     = queryLog (snd (snd (startTurn cfg env blocks session sid st)))"
proof -
  obtain r session1 st1 where s: "startTurn cfg env blocks session sid st = (r, session1, st1)"
    by (cases "startTurn cfg env blocks session sid st")
  show ?thesis
  proof (cases r)
    case (Inl e)
    then show ?thesis using s by (simp add: executePrompt_def)
  next
    case (Inr stream)
    obtain msgs ending where st: "stream = MessageStream msgs ending" by (cases stream)
    obtain r2 i p where pm: "processMessages cfg env sid 0 msgs ending (session1, st1) = (r2, i, p)"
      by (cases "processMessages cfg env sid 0 msgs ending (session1, st1)")
    have q: "queryLog (snd p) = queryLog st1"
      using processMessages_queryLog[of cfg env sid 0 msgs ending "(session1, st1)"] pm by simp
    show ?thesis
      using s Inr st pm q by (cases r2) (simp_all add: executePrompt_def)
  qed
qed



lemma processMessages_stream_throws:
  "processMessages cfg env sid i [] (Some e) p = (Inl e, i, p)"
  by simp

section \<open>Plans, busy sessions and input lines\<close>

lemma steps_need_plan:
  "estimatedSteps (analyzePromptComplexity p) \<ge> 3 \<Longrightarrow> needsPlan (analyzePromptComplexity p)"
  by (auto simp: analyzePromptComplexity_def Let_def split: if_splits)

lemma plan_summary:
  "needsPlan (analyzePromptComplexity p)
   \<Longrightarrow> summary (analyzePromptComplexity p) = generatePromptSummary p True"
  by (auto simp: analyzePromptComplexity_def Let_def)

lemma generateAndSendPlan_registered:
  "sessions st sid = Some session \<Longrightarrow>
   generateAndSendPlan sid cx st =
     Inr (st\<lparr>sessions := (sessions st)(sid \<mapsto> session\<lparr>currentPlan := Some (generatePlan cx)\<rparr>),
             sent := sent st @ [(sid, plan (generatePlan cx))]\<rparr>)"
  by (simp add: generateAndSendPlan_def getSession_def sessionUpdate_def)

lemma prompt_busy:
  "sessions st sid = Some session \<Longrightarrow> pendingPrompt session \<Longrightarrow>
   prompt cfg env sid blocks st
     = (Inl (PlainError ''Session is busy processing another prompt''), st)"
  by (simp add: prompt_def getSession_def)

lemma processLines_append:
  "processLines parse pm (xs @ ys) = processLines parse pm xs @ processLines parse pm ys"
  by (induction xs) auto

section \<open>The permission broker: what goes out to the host\<close>

lemma requestEnhancedPermission_requests:
  assumes "requestEnhancedPermission defaultMode cwd toolCallInfo sessionMap requestPermission
             sessionId toolCallId context = Inr (decision, requests)"
  shows "requests = [] \<or>
         requests = [\<lparr>req_sessionId = sessionId, req_toolCallId = toolCallId,
                      req_toolCallInfo = toolCallInfo context,
                      req_rawInput = (if isValidInput (input context) then input context
                                      else JUndefined),
                      req_options = generatePermissionOptions context\<rparr>]"
  using assms
  by (auto simp: requestEnhancedPermission_def getSession_def Let_def
      split: option.splits sum.splits if_splits RequestPermissionOutcome.splits)

lemma requestEnhancedPermission_asks:
  assumes "sessionMap sessionId = Some session"
    and "(case permissionMode session of None \<Rightarrow> defaultMode | Some m \<Rightarrow> m) \<noteq> BypassPermissions"
    and "\<not> ((case permissionMode session of None \<Rightarrow> defaultMode | Some m \<Rightarrow> m) = AcceptEdits
            \<and> isAutoApprovableOperation context)"
    and "requiresExplicitPermission cwd context"
  shows "\<exists>decision. requestEnhancedPermission defaultMode cwd toolCallInfo sessionMap
             requestPermission sessionId toolCallId context
           = Inr (decision,
                  [\<lparr>req_sessionId = sessionId, req_toolCallId = toolCallId,
                    req_toolCallInfo = toolCallInfo context,
                    req_rawInput = (if isValidInput (input context) then input context
                                    else JUndefined),
                    req_options = generatePermissionOptions context\<rparr>])"
  using assms
  by (auto simp: requestEnhancedPermission_def getSession_def Let_def
      split: option.splits sum.splits RequestPermissionOutcome.splits)

section \<open>The message loop: a throw that is not a cancel\<close>

lemma isAborted_cong:
  "abortController s' = abortController s \<Longrightarrow> isAborted env i s' = isAborted env i s"
  by (simp add: isAborted_def)





section \<open>Messages handled one at a time\<close>

lemma writeSession_other:
  "k \<noteq> sid \<Longrightarrow> sessions (snd (writeSession sid f p)) k = sessions (snd p) k"
  by (cases p) (simp add: writeSession_def split: option.splits)

lemma startTurn_other:
  "k \<noteq> sid \<Longrightarrow> sessions (snd (snd (startTurn cfg env blocks session sid st))) k = sessions st k"
  unfolding startTurn_def Let_def
  by (auto simp: generateAndSendPlan_def getSession_def writeSession_other
      split: option.splits sum.splits prod.splits if_splits)

lemma processMessages_other:
  "k \<noteq> sid \<Longrightarrow>
   sessions (snd (snd (snd (processMessages cfg env sid i msgs ending p)))) k = sessions (snd p) k"
proof (induction msgs arbitrary: i p)
  case Nil
  then show ?case by (cases ending) (simp_all add: writeSession_other)
next
  case (Cons message rest)
  show ?case
    by (cases "isAborted env i (fst p)"; cases "snd (handleMessage cfg message)";
        cases "messageSessionId cfg message")
       (simp_all add: Let_def Cons.IH [OF Cons.prems] writeSession_other [OF Cons.prems])
qed

lemma finishTurn_other:
  "k \<noteq> sid \<Longrightarrow> sessions (snd (finishTurn sid reason p)) k = sessions (snd p) k"
  by (simp add: finishTurn_def writeSession_other)

lemma catchTurn_other:
  "k \<noteq> sid \<Longrightarrow> sessions (snd (catchTurn env sid e i p)) k = sessions (snd p) k"
  by (simp add: catchTurn_def finishTurn_other)

lemma catchTurn_sid:
  "sessions (snd (catchTurn env sid e i p)) sid = Some s \<Longrightarrow> \<not> pendingPrompt s"
  by (auto simp: catchTurn_def split: if_splits)

lemma finishTurn_sid:
  "sessions (snd (finishTurn sid reason p)) sid = Some s \<Longrightarrow> \<not> pendingPrompt s"
  by auto

lemma executePrompt_other:
  assumes "k \<noteq> sid"
  shows "sessions (snd (executePrompt cfg env blocks session sid st)) k = sessions st k"
proof -
  obtain r session1 st1 where s: "startTurn cfg env blocks session sid st = (r, session1, st1)"
    by (cases "startTurn cfg env blocks session sid st")
  have o1: "sessions st1 k = sessions st k"
    using startTurn_other [OF assms, of cfg env blocks session st] s by simp
  show ?thesis
  proof (cases r)
    case (Inl e)
    then show ?thesis using s o1 by (simp add: executePrompt_def catchTurn_other [OF assms])
  next
    case (Inr stream)
    obtain msgs ending where st: "stream = MessageStream msgs ending" by (cases stream)
    obtain r2 i p where pm: "processMessages cfg env sid 0 msgs ending (session1, st1) = (r2, i, p)"
      by (cases "processMessages cfg env sid 0 msgs ending (session1, st1)")
    have o2: "sessions (snd p) k = sessions st k"
      using processMessages_other [OF assms, of cfg env 0 msgs ending "(session1, st1)"] pm o1
      by simp
    show ?thesis
      using s Inr st pm o2
      by (cases r2) (simp_all add: executePrompt_def catchTurn_other [OF assms]
          finishTurn_other [OF assms])
  qed
qed

lemma executePrompt_sid:
  assumes "sessions (snd (executePrompt cfg env blocks session sid st)) sid = Some s"
  shows "\<not> pendingPrompt s"
proof -
  obtain r session1 st1 where s: "startTurn cfg env blocks session sid st = (r, session1, st1)"
    by (cases "startTurn cfg env blocks session sid st")
  show ?thesis
  proof (cases r)
    case (Inl e)
    then show ?thesis using s assms catchTurn_sid by (simp add: executePrompt_def)
  next
    case (Inr stream)
    obtain msgs ending where st: "stream = MessageStream msgs ending" by (cases stream)
    obtain r2 i p where pm: "processMessages cfg env sid 0 msgs ending (session1, st1) = (r2, i, p)"
      by (cases "processMessages cfg env sid 0 msgs ending (session1, st1)")
    show ?thesis
    proof (cases r2)
      case (Inl e)
      then have "executePrompt cfg env blocks session sid st = catchTurn env sid e i p"
        using s Inr st pm by (simp add: executePrompt_def)
      then show ?thesis using assms catchTurn_sid by metis
    next
      case (Inr reason)
      then have "executePrompt cfg env blocks session sid st = finishTurn sid reason p"
        using s \<open>r = Inr stream\<close> st pm by (simp add: executePrompt_def)
      then show ?thesis using assms finishTurn_sid by metis
    qed
  qed
qed

lemma executePrompt_idle:
  assumes "idle st"
  shows "idle (snd (executePrompt cfg env blocks session sid st))"
  unfolding idle_def
proof (intro allI impI)
  fix k s
  assume h: "sessions (snd (executePrompt cfg env blocks session sid st)) k = Some s"
  show "\<not> pendingPrompt s"
  proof (cases "k = sid")
    case True
    then show ?thesis using h executePrompt_sid by metis
  next
    case False
    have "sessions st k = Some s"
      using h executePrompt_other [OF False, of cfg env blocks session st] by simp
    then show ?thesis using assms by (auto simp: idle_def)
  qed
qed

lemma idle_write:
  assumes "idle st" and "\<And>s. pendingPrompt (f s) = pendingPrompt s"
  shows "idle (snd (writeSession sid f (session, st)))"
  using assms by (auto simp: idle_def writeSession_def split: option.splits if_splits)

lemma prompt_idle:
  assumes "idle st"
  shows "idle (snd (prompt cfg env sid blocks st))"
proof (cases "sessions st sid")
  case None
  then show ?thesis using assms by (simp add: prompt_def getSession_def)
next
  case (Some session)
  have np: "\<not> pendingPrompt session" using assms Some by (simp add: idle_def)
  let ?p0 = "(case abortController session of
                None \<Rightarrow> (session, st)
              | Some a \<Rightarrow> writeSession sid (\<lambda>s. s\<lparr>abortController := Some True\<rparr>) (session, st))"
  have i0: "idle (snd ?p0)"
    using assms idle_write [OF assms, of "\<lambda>s. s\<lparr>abortController := Some True\<rparr>" sid session]
    by (cases "abortController session") simp_all
  obtain session1 st1 where w: "writeSession sid (\<lambda>s. s\<lparr>abortController := Some False\<rparr>) ?p0
      = (session1, st1)"
    by (cases "writeSession sid (\<lambda>s. s\<lparr>abortController := Some False\<rparr>) ?p0")
  have i1: "idle st1"
    using idle_write [OF i0, of "\<lambda>s. s\<lparr>abortController := Some False\<rparr>" sid "fst ?p0"] w
    by simp
  show ?thesis
  proof (cases "promptSlot env")
    case False
    then show ?thesis using Some np w i1 by (simp add: prompt_def getSession_def Let_def)
  next
    case True
    have "snd (prompt cfg env sid blocks st) = snd (executePrompt cfg env blocks session1 sid st1)"
      using Some np w True by (simp add: prompt_def getSession_def Let_def split: prod.splits)
    then show ?thesis using executePrompt_idle [OF i1] by simp
  qed
qed

lemma prompt_not_busy:
  assumes "idle st"
  shows "fst (prompt cfg env sid blocks st)
           \<noteq> Inl (PlainError ''Session is busy processing another prompt'')"
proof (cases "sessions st sid")
  case None
  then show ?thesis by (simp add: prompt_def getSession_def)
next
  case (Some session)
  have np: "\<not> pendingPrompt session" using assms Some by (simp add: idle_def)
  show ?thesis
    using Some np by (simp add: prompt_def getSession_def Let_def split: prod.splits)
qed

lemma prompt_outcome:
  "(\<exists>reason. fst (prompt cfg env sid blocks st) = Inr reason)
   \<or> (\<exists>message. fst (prompt cfg env sid blocks st) = Inl (PlainError message))"
  by (auto simp: prompt_def getSession_def Let_def split: option.splits prod.splits)

lemma tryCallHandler_prompt:
  "(\<exists>reason. tryCallHandler (fst (prompt cfg env sid blocks st)) = ResultOf reason)
   \<or> (\<exists>details. tryCallHandler (fst (prompt cfg env sid blocks st))
         = ErrorOf (- 32603) ''Internal error'' details)"
  using prompt_outcome [of cfg env sid blocks st]
  by (auto simp: internalError_def newRequestError_def)

lemma cancel_idle: "idle st \<Longrightarrow> idle (cancel sid st)"
  by (auto simp: idle_def cancel_def split: option.splits if_splits)

lemma tryCallHandler_busy:
  "tryCallHandler outcome
     = ErrorOf (- 32603) ''Internal error'' (Some ''Session is busy processing another prompt'')
   \<Longrightarrow> outcome = Inl (PlainError ''Session is busy processing another prompt'')
       \<or> (\<exists>s. outcome = Inl (NonError (Some ''Session is busy processing another prompt'') s))
       \<or> outcome = Inl (RequestError (- 32603) ''Internal error''
                          (Some ''Session is busy processing another prompt''))"
proof (cases outcome)
  case (Inl e)
  assume a: "tryCallHandler outcome
     = ErrorOf (- 32603) ''Internal error'' (Some ''Session is busy processing another prompt'')"
  show ?thesis
    using a Inl
    by (cases e) (auto simp: internalError_def newRequestError_def invalidParams_def
        split: option.splits if_splits)
next
  case (Inr r)
  assume "tryCallHandler outcome
     = ErrorOf (- 32603) ''Internal error'' (Some ''Session is busy processing another prompt'')"
  then show ?thesis using Inr by simp
qed

section \<open>Permission options\<close>

text \<open>
  Claim C4. The option list of every permission prompt holds an option of kind
  \<open>allow_once\<close>, one of kind \<open>reject_once\<close> and one of kind \<open>reject_always\<close>, and one of
  kind \<open>allow_always\<close> exactly when the operation type is not \<open>delete\<close>; for a \<open>delete\<close>
  operation the kinds are exactly \<open>allow_once, reject_once, reject_always\<close>, in that
  order. This holds of the list \<open>generatePermissionOptions\<close> builds, and that list is
  what every request that \<open>requestEnhancedPermission\<close> sends to the host carries: it
  sends at most one request, and exactly one when the session exists, the mode is not
  \<open>bypassPermissions\<close>, the operation is not auto-approved under \<open>acceptEdits\<close> and it
  requires explicit permission.
\<close>

theorem generatePermissionOptions_kinds:
  "allow_once \<in> set (map kind (generatePermissionOptions context))
   \<and> reject_once \<in> set (map kind (generatePermissionOptions context))
   \<and> reject_always \<in> set (map kind (generatePermissionOptions context))
   \<and> (allow_always \<in> set (map kind (generatePermissionOptions context))
        \<longleftrightarrow> operationType context \<noteq> Some Delete)
   \<and> (operationType context = Some Delete
        \<longrightarrow> map kind (generatePermissionOptions context) = [allow_once, reject_once, reject_always])
   \<and> (requestEnhancedPermission defaultMode cwd toolCallInfo sessionMap requestPermission
          sessionId toolCallId context = Inr (decision, requests)
        \<longrightarrow> length requests \<le> 1
            \<and> (\<forall>r \<in> set requests.
                  req_options r = generatePermissionOptions context
                  \<and> allow_once \<in> set (map kind (req_options r))
                  \<and> reject_once \<in> set (map kind (req_options r))
                  \<and> reject_always \<in> set (map kind (req_options r))
                  \<and> (allow_always \<in> set (map kind (req_options r))
                       \<longleftrightarrow> operationType context \<noteq> Some Delete)
                  \<and> (operationType context = Some Delete
                       \<longrightarrow> map kind (req_options r)
                             = [allow_once, reject_once, reject_always])))
   \<and> (sessionMap sessionId = Some session
        \<and> (case permissionMode session of None \<Rightarrow> defaultMode | Some m \<Rightarrow> m)
            \<noteq> BypassPermissions
        \<and> \<not> ((case permissionMode session of None \<Rightarrow> defaultMode | Some m \<Rightarrow> m) = AcceptEdits
               \<and> isAutoApprovableOperation context)
        \<and> requiresExplicitPermission cwd context
        \<longrightarrow> (\<exists>decision' r.
               requestEnhancedPermission defaultMode cwd toolCallInfo sessionMap requestPermission
                 sessionId toolCallId context = Inr (decision', [r])
               \<and> req_options r = generatePermissionOptions context))"
proof -
  have kinds: "allow_once \<in> set (map kind (generatePermissionOptions context))
     \<and> reject_once \<in> set (map kind (generatePermissionOptions context))
     \<and> reject_always \<in> set (map kind (generatePermissionOptions context))
     \<and> (allow_always \<in> set (map kind (generatePermissionOptions context))
          \<longleftrightarrow> operationType context \<noteq> Some Delete)
     \<and> (operationType context = Some Delete
          \<longrightarrow> map kind (generatePermissionOptions context)
                = [allow_once, reject_once, reject_always])"
    by (auto simp: generatePermissionOptions_def)
  have sent: "length requests \<le> 1
            \<and> (\<forall>r \<in> set requests.
                  req_options r = generatePermissionOptions context
                  \<and> allow_once \<in> set (map kind (req_options r))
                  \<and> reject_once \<in> set (map kind (req_options r))
                  \<and> reject_always \<in> set (map kind (req_options r))
                  \<and> (allow_always \<in> set (map kind (req_options r))
                       \<longleftrightarrow> operationType context \<noteq> Some Delete)
                  \<and> (operationType context = Some Delete
                       \<longrightarrow> map kind (req_options r)
                             = [allow_once, reject_once, reject_always]))"
    if run: "requestEnhancedPermission defaultMode cwd toolCallInfo sessionMap requestPermission
          sessionId toolCallId context = Inr (decision, requests)"
  proof -
    have "requests = [] \<or>
         requests = [\<lparr>req_sessionId = sessionId, req_toolCallId = toolCallId,
                      req_toolCallInfo = toolCallInfo context,
                      req_rawInput = (if isValidInput (input context) then input context
                                      else JUndefined),
                      req_options = generatePermissionOptions context\<rparr>]"
      by (rule requestEnhancedPermission_requests [OF run])
    then show ?thesis
    proof
      assume "requests = []"
      then show ?thesis by simp
    next
      assume one: "requests = [\<lparr>req_sessionId = sessionId, req_toolCallId = toolCallId,
                      req_toolCallInfo = toolCallInfo context,
                      req_rawInput = (if isValidInput (input context) then input context
                                      else JUndefined),
                      req_options = generatePermissionOptions context\<rparr>]"
      show ?thesis unfolding one using kinds by simp
    qed
  qed
  have asks: "\<exists>decision' r.
               requestEnhancedPermission defaultMode cwd toolCallInfo sessionMap requestPermission
                 sessionId toolCallId context = Inr (decision', [r])
               \<and> req_options r = generatePermissionOptions context"
    if h: "sessionMap sessionId = Some session
        \<and> (case permissionMode session of None \<Rightarrow> defaultMode | Some m \<Rightarrow> m)
            \<noteq> BypassPermissions
        \<and> \<not> ((case permissionMode session of None \<Rightarrow> defaultMode | Some m \<Rightarrow> m) = AcceptEdits
               \<and> isAutoApprovableOperation context)
        \<and> requiresExplicitPermission cwd context"
  proof -
    from h have h1: "sessionMap sessionId = Some session"
      and h2: "(case permissionMode session of None \<Rightarrow> defaultMode | Some m \<Rightarrow> m)
            \<noteq> BypassPermissions"
      and h3: "\<not> ((case permissionMode session of None \<Rightarrow> defaultMode | Some m \<Rightarrow> m) = AcceptEdits
               \<and> isAutoApprovableOperation context)"
      and h4: "requiresExplicitPermission cwd context"
      by blast+
    have "\<exists>d. requestEnhancedPermission defaultMode cwd toolCallInfo sessionMap
             requestPermission sessionId toolCallId context
           = Inr (d,
                  [\<lparr>req_sessionId = sessionId, req_toolCallId = toolCallId,
                    req_toolCallInfo = toolCallInfo context,
                    req_rawInput = (if isValidInput (input context) then input context
                                    else JUndefined),
                    req_options = generatePermissionOptions context\<rparr>])"
      using h1 h2 h3 h4 by (rule requestEnhancedPermission_asks)
    then show ?thesis by auto
  qed
  show ?thesis using kinds sent asks by blast
qed

text \<open>
  A \<open>delete\<close> of \<open>/etc/passwd\<close> in \<open>default\<close> mode: one request goes out, with the three
  options of a \<open>delete\<close>.
\<close>

theorem generatePermissionOptions_kinds_witness:
  "requestEnhancedPermission Default ''/w'' toolName
      [''S'' \<mapsto> \<lparr>pendingPrompt = False, abortController = None, claudeSessionId = None,
        permissionMode = Some Default, currentPlan = None, thoughtStreaming = True\<rparr>]
      (\<lambda>r. Inr (OutcomeSelected ''allow_once'')) ''S'' ''T''
      \<lparr>toolName = ''Delete'', input = JObj [(''file_path'', JStr ''/etc/passwd'')],
        operationType = Some Delete, affectedFiles = Some [''/etc/passwd''],
        complexity = Some Moderate\<rparr>
     = Inr (True,
        [\<lparr>req_sessionId = ''S'', req_toolCallId = ''T'', req_toolCallInfo = ''Delete'',
          req_rawInput = JObj [(''file_path'', JStr ''/etc/passwd'')],
          req_options =
            [\<lparr>optionId = ''allow_once'', name = ''Allow this time'', kind = allow_once\<rparr>,
             \<lparr>optionId = ''reject_once'', name = ''Deny this time'', kind = reject_once\<rparr>,
             \<lparr>optionId = ''reject_always'', name = ''Never allow this type of operation'',
              kind = reject_always\<rparr>]\<rparr>])
   \<and> map kind (req_options
        \<lparr>req_sessionId = ''S'', req_toolCallId = ''T'', req_toolCallInfo = ''Delete'',
          req_rawInput = JObj [(''file_path'', JStr ''/etc/passwd'')],
          req_options =
            [\<lparr>optionId = ''allow_once'', name = ''Allow this time'', kind = allow_once\<rparr>,
             \<lparr>optionId = ''reject_once'', name = ''Deny this time'', kind = reject_once\<rparr>,
             \<lparr>optionId = ''reject_always'', name = ''Never allow this type of operation'',
              kind = reject_always\<rparr>]\<rparr>)
     = [allow_once, reject_once, reject_always]"
  using generatePermissionOptions_kinds [of
      "\<lparr>toolName = ''Delete'', input = JObj [(''file_path'', JStr ''/etc/passwd'')],
        operationType = Some Delete, affectedFiles = Some [''/etc/passwd''],
        complexity = Some Moderate\<rparr>"
      Default "''/w''" toolName
      "[''S'' \<mapsto> \<lparr>pendingPrompt = False, abortController = None, claudeSessionId = None,
        permissionMode = Some Default, currentPlan = None, thoughtStreaming = True\<rparr>]"
      "\<lambda>r. Inr (OutcomeSelected ''allow_once'')" "''S''" "''T''" True
      "[\<lparr>req_sessionId = ''S'', req_toolCallId = ''T'', req_toolCallInfo = ''Delete'',
          req_rawInput = JObj [(''file_path'', JStr ''/etc/passwd'')],
          req_options =
            [\<lparr>optionId = ''allow_once'', name = ''Allow this time'', kind = allow_once\<rparr>,
             \<lparr>optionId = ''reject_once'', name = ''Deny this time'', kind = reject_once\<rparr>,
             \<lparr>optionId = ''reject_always'', name = ''Never allow this type of operation'',
              kind = reject_always\<rparr>]\<rparr>]"
      "\<lparr>pendingPrompt = False, abortController = None, claudeSessionId = None,
        permissionMode = Some Default, currentPlan = None, thoughtStreaming = True\<rparr>"]
  by (simp add: requestEnhancedPermission_def getSession_def requiresExplicitPermission_def
      isAutoApprovableOperation_def generatePermissionOptions_def Let_def)


section \<open>The requires-confirmation test\<close>

text \<open>
  Claim C3, as stated, fails: the source looks the danger words up with
  \<open>command.includes(cmd)\<close>, a substring test. The command \<open>format disk\<close> of an
  \<open>execute\<close> operation with no affected file holds \<open>rm\<close> inside \<open>format\<close>, so the test
  is true, although the operation is no \<open>delete\<close>, no token of the command is a danger
  word and there is no path at all.
\<close>

theorem requiresExplicitPermission_token_counterexample:
  "requiresExplicitPermission ''/w''
       \<lparr>toolName = ''Bash'', input = JObj [(''command'', JStr ''format disk'')],
        operationType = Some Execute, affectedFiles = None, complexity = Some Moderate\<rparr>
   \<and> operationType
       \<lparr>toolName = ''Bash'', input = JObj [(''command'', JStr ''format disk'')],
        operationType = Some Execute, affectedFiles = None, complexity = Some Moderate\<rparr>
       \<noteq> Some Delete
   \<and> spec_command_tokens (commandString (JObj [(''command'', JStr ''format disk'')]))
       = [''format'', ''disk'']
   \<and> \<not> list_ex (\<lambda>t. t \<in> set dangerousCommands)
          (spec_command_tokens (commandString (JObj [(''command'', JStr ''format disk'')])))
   \<and> affectedFiles
       \<lparr>toolName = ''Bash'', input = JObj [(''command'', JStr ''format disk'')],
        operationType = Some Execute, affectedFiles = None, complexity = Some Moderate\<rparr>
       = None"
  by (simp add: requiresExplicitPermission_def dangerousCommands_def js_or_def js_get_def
      spec_command_tokens_def)

text \<open>
  Claim C3, amended. The test is true whenever the operation type is \<open>delete\<close>, and
  whenever it is \<open>execute\<close>, the input is an object and its command string holds one of
  \<open>rm, sudo, chmod, chown, mv, cp, dd\<close> as a substring. For an operation each of whose
  absolute affected paths begins with the working directory's string exactly when it is
  lexically contained in that directory after normalization, the test is true exactly
  when one of these two holds or some affected path is absolute and not lexically
  contained in the working directory after normalization. Nothing is said of the other
  operations. When the test is false (and the session exists) the operation is allowed
  and no permission request goes out.
\<close>

theorem requiresExplicitPermission_iff:
  "((\<forall>files path. affectedFiles context = Some files \<and> path \<in> set files
                   \<and> startsWith path ''/''
        \<longrightarrow> (startsWith path cwd \<longleftrightarrow> spec_contained cwd path))
     \<longrightarrow> (requiresExplicitPermission cwd context \<longleftrightarrow>
           (operationType context = Some Delete
            \<or> (operationType context = Some Execute \<and> isValidInput (input context)
                \<and> (\<exists>cmd \<in> set dangerousCommands.
                      \<exists>a b. commandString (input context) = a @ cmd @ b))
            \<or> (\<exists>files. affectedFiles context = Some files
                  \<and> (\<exists>path \<in> set files.
                        (\<exists>r. path = CHR ''/'' # r) \<and> \<not> spec_contained cwd path)))))
   \<and> (operationType context = Some Delete \<longrightarrow> requiresExplicitPermission cwd context)
   \<and> (operationType context = Some Execute \<and> isValidInput (input context)
        \<and> (\<exists>cmd \<in> set dangerousCommands. \<exists>a b. commandString (input context) = a @ cmd @ b)
       \<longrightarrow> requiresExplicitPermission cwd context)
   \<and> (sessionMap sessionId = Some session \<and> \<not> requiresExplicitPermission cwd context
        \<longrightarrow> requestEnhancedPermission defaultMode cwd toolCallInfo sessionMap requestPermission
              sessionId toolCallId context = Inr (True, []))"
proof (intro conjI impI)
  assume agree: "\<forall>files path. affectedFiles context = Some files \<and> path \<in> set files
                   \<and> startsWith path ''/''
        \<longrightarrow> (startsWith path cwd \<longleftrightarrow> spec_contained cwd path)"
  have abs: "startsWith path ''/'' \<longleftrightarrow> (\<exists>r. path = CHR ''/'' # r)" for path
    by (simp add: startsWith_iff)
  have paths: "(case affectedFiles context of
              None \<Rightarrow> False
            | Some files \<Rightarrow> list_ex (\<lambda>path. startsWith path ''/'' \<and> \<not> startsWith path cwd) files)
        \<longleftrightarrow> (\<exists>files. affectedFiles context = Some files
                  \<and> (\<exists>path \<in> set files.
                        (\<exists>r. path = CHR ''/'' # r) \<and> \<not> spec_contained cwd path))"
  proof (cases "affectedFiles context")
    case None
    then show ?thesis by simp
  next
    case (Some files)
    have "(startsWith path ''/'' \<and> \<not> startsWith path cwd)
          \<longleftrightarrow> ((\<exists>r. path = CHR ''/'' # r) \<and> \<not> spec_contained cwd path)"
      if "path \<in> set files" for path
      using agree Some that abs [of path] by blast
    then show ?thesis using Some by (auto simp: list_ex_iff)
  qed
  show "requiresExplicitPermission cwd context \<longleftrightarrow>
           (operationType context = Some Delete
            \<or> (operationType context = Some Execute \<and> isValidInput (input context)
                \<and> (\<exists>cmd \<in> set dangerousCommands.
                      \<exists>a b. commandString (input context) = a @ cmd @ b))
            \<or> (\<exists>files. affectedFiles context = Some files
                  \<and> (\<exists>path \<in> set files.
                        (\<exists>r. path = CHR ''/'' # r) \<and> \<not> spec_contained cwd path)))"
  proof -
    have req: "requiresExplicitPermission cwd context \<longleftrightarrow>
        (operationType context = Some Delete
         \<or> (operationType context = Some Execute \<and> isValidInput (input context)
             \<and> list_ex (\<lambda>cmd. includes_str (commandString (input context)) cmd)
                  dangerousCommands)
         \<or> (case affectedFiles context of
              None \<Rightarrow> False
            | Some files \<Rightarrow>
                list_ex (\<lambda>path. startsWith path ''/'' \<and> \<not> startsWith path cwd) files))"
      by (auto simp: requiresExplicitPermission_def)
    have cmds: "list_ex (\<lambda>cmd. includes_str (commandString (input context)) cmd)
                  dangerousCommands
        \<longleftrightarrow> (\<exists>cmd \<in> set dangerousCommands.
                      \<exists>a b. commandString (input context) = a @ cmd @ b)"
      by (simp add: list_ex_iff includes_str_iff)
    show ?thesis by (simp only: req cmds paths)
  qed
next
  assume "operationType context = Some Delete"
  then show "requiresExplicitPermission cwd context"
    by (simp add: requiresExplicitPermission_def)
next
  assume "operationType context = Some Execute \<and> isValidInput (input context)
        \<and> (\<exists>cmd \<in> set dangerousCommands. \<exists>a b. commandString (input context) = a @ cmd @ b)"
  then show "requiresExplicitPermission cwd context"
    by (auto simp: requiresExplicitPermission_def list_ex_iff includes_str_iff)
next
  assume "sessionMap sessionId = Some session \<and> \<not> requiresExplicitPermission cwd context"
  then show "requestEnhancedPermission defaultMode cwd toolCallInfo sessionMap requestPermission
              sessionId toolCallId context = Inr (True, [])"
    by (simp add: requestEnhancedPermission_def getSession_def Let_def)
qed

text \<open>
  Under \<open>/w\<close>: a read of \<open>/w/src/test.ts\<close> and of the relative \<open>notes.md\<close> asks for no
  confirmation and is allowed with no request; an edit that touches \<open>/etc/hosts\<close> asks
  for one.
\<close>

theorem requiresExplicitPermission_iff_witness:
  "spec_contained ''/w'' ''/w/src/test.ts''
   \<and> \<not> requiresExplicitPermission ''/w''
       \<lparr>toolName = ''Read'', input = JObj [(''file_path'', JStr ''/w/src/test.ts'')],
        operationType = Some Read, affectedFiles = Some [''/w/src/test.ts'', ''notes.md''],
        complexity = Some Simple\<rparr>
   \<and> requestEnhancedPermission Default ''/w'' (\<lambda>c. toolName c)
        [''S'' \<mapsto> \<lparr>pendingPrompt = False, abortController = None, claudeSessionId = None,
        permissionMode = Some Default, currentPlan = None, thoughtStreaming = True\<rparr>]
        (\<lambda>r. Inr OutcomeCancelled) ''S'' ''T''
        \<lparr>toolName = ''Read'', input = JObj [(''file_path'', JStr ''/w/src/test.ts'')],
        operationType = Some Read, affectedFiles = Some [''/w/src/test.ts'', ''notes.md''],
        complexity = Some Simple\<rparr>
      = Inr (True, [])
   \<and> \<not> spec_contained ''/w'' ''/etc/hosts''
   \<and> requiresExplicitPermission ''/w''
       \<lparr>toolName = ''Edit'', input = JObj [(''file_path'', JStr ''/etc/hosts'')],
        operationType = Some Edit, affectedFiles = Some [''/w/a.ts'', ''/etc/hosts''],
        complexity = Some Moderate\<rparr>"
proof -
  have c: "spec_contained ''/w'' ''/w/src/test.ts''" "spec_contained ''/w'' ''/w/a.ts''"
    "\<not> spec_contained ''/w'' ''/etc/hosts''"
    by (simp_all add: spec_contained_def spec_normalize_def)
  note inside = requiresExplicitPermission_iff [of
      "\<lparr>toolName = ''Read'', input = JObj [(''file_path'', JStr ''/w/src/test.ts'')],
        operationType = Some Read, affectedFiles = Some [''/w/src/test.ts'', ''notes.md''],
        complexity = Some Simple\<rparr>"
      "''/w''"
      "[''S'' \<mapsto> \<lparr>pendingPrompt = False, abortController = None, claudeSessionId = None,
        permissionMode = Some Default, currentPlan = None, thoughtStreaming = True\<rparr>]"
      "''S''"
      "\<lparr>pendingPrompt = False, abortController = None, claudeSessionId = None,
        permissionMode = Some Default, currentPlan = None, thoughtStreaming = True\<rparr>"
      Default "\<lambda>c. toolName c" "\<lambda>r. Inr OutcomeCancelled" "''T''"]
  note outside = requiresExplicitPermission_iff [of
      "\<lparr>toolName = ''Edit'', input = JObj [(''file_path'', JStr ''/etc/hosts'')],
        operationType = Some Edit, affectedFiles = Some [''/w/a.ts'', ''/etc/hosts''],
        complexity = Some Moderate\<rparr>"
      "''/w''"]
  have a1: "\<not> requiresExplicitPermission ''/w''
       \<lparr>toolName = ''Read'', input = JObj [(''file_path'', JStr ''/w/src/test.ts'')],
        operationType = Some Read, affectedFiles = Some [''/w/src/test.ts'', ''notes.md''],
        complexity = Some Simple\<rparr>"
    using inside [THEN conjunct1] c by (auto simp: dangerousCommands_def)
  have a2: "requestEnhancedPermission Default ''/w'' (\<lambda>c. toolName c)
        [''S'' \<mapsto> \<lparr>pendingPrompt = False, abortController = None, claudeSessionId = None,
        permissionMode = Some Default, currentPlan = None, thoughtStreaming = True\<rparr>]
        (\<lambda>r. Inr OutcomeCancelled) ''S'' ''T''
        \<lparr>toolName = ''Read'', input = JObj [(''file_path'', JStr ''/w/src/test.ts'')],
        operationType = Some Read, affectedFiles = Some [''/w/src/test.ts'', ''notes.md''],
        complexity = Some Simple\<rparr>
      = Inr (True, [])"
    using inside [THEN conjunct2, THEN conjunct2, THEN conjunct2] a1 by simp
  have a3: "requiresExplicitPermission ''/w''
       \<lparr>toolName = ''Edit'', input = JObj [(''file_path'', JStr ''/etc/hosts'')],
        operationType = Some Edit, affectedFiles = Some [''/w/a.ts'', ''/etc/hosts''],
        complexity = Some Moderate\<rparr>"
    using outside [THEN conjunct1] c by (auto simp: dangerousCommands_def)
  show ?thesis using c a1 a2 a3 by blast
qed

section \<open>A permission request that throws\<close>

text \<open>
  Claim C10. For an operation that requires explicit permission, when the host's
  \<open>session/request_permission\<close> throws (the broker reaches the host only outside
  \<open>bypassPermissions\<close> mode), the broker returns a decision and no exception: deny, except
  allow when the mode is \<open>acceptEdits\<close> and the operation type is \<open>read\<close> or \<open>search\<close>.
  That exception is decided before any request is sent: whenever a request did go out
  and threw, the decision is deny.
\<close>

theorem requestEnhancedPermission_host_throws:
  assumes "sessionMap sessionId = Some session"
    and "requiresExplicitPermission cwd context"
    and "(case permissionMode session of None \<Rightarrow> defaultMode | Some m \<Rightarrow> m) = mode"
    and "mode \<noteq> BypassPermissions"
  shows "\<exists>reqs. requestEnhancedPermission defaultMode cwd toolCallInfo sessionMap
                  (\<lambda>r. Inl (e r)) sessionId toolCallId context
            = Inr (mode = AcceptEdits \<and> operationType context \<in> {Some Read, Some Search}, reqs)
          \<and> (reqs \<noteq> []
               \<longrightarrow> \<not> (mode = AcceptEdits \<and> operationType context \<in> {Some Read, Some Search}))"
  using assms
  by (auto simp: requestEnhancedPermission_def getSession_def Let_def
      isAutoApprovableOperation_def split: option.splits)

theorem requestEnhancedPermission_host_throws_witness:
  "\<exists>reqs. requestEnhancedPermission Default ''/w'' (\<lambda>c. toolName c)
        [''S'' \<mapsto> \<lparr>pendingPrompt = False, abortController = None, claudeSessionId = None,
                  permissionMode = Some AcceptEdits, currentPlan = None, thoughtStreaming = True\<rparr>]
        (\<lambda>r. Inl (PlainError ''Connection is destroyed'')) ''S'' ''T''
        \<lparr>toolName = ''Delete'', input = JObj [(''file_path'', JStr ''/etc/passwd'')],
         operationType = Some Delete, affectedFiles = Some [''/etc/passwd''],
         complexity = Some Moderate\<rparr>
      = Inr (False, reqs) \<and> reqs \<noteq> []"
  using requestEnhancedPermission_host_throws [of
      "[''S'' \<mapsto> \<lparr>pendingPrompt = False, abortController = None, claudeSessionId = None,
                  permissionMode = Some AcceptEdits, currentPlan = None, thoughtStreaming = True\<rparr>]"
      "''S''"
      "\<lparr>pendingPrompt = False, abortController = None, claudeSessionId = None,
        permissionMode = Some AcceptEdits, currentPlan = None, thoughtStreaming = True\<rparr>"
      "''/w''"
      "\<lparr>toolName = ''Delete'', input = JObj [(''file_path'', JStr ''/etc/passwd'')],
        operationType = Some Delete, affectedFiles = Some [''/etc/passwd''],
        complexity = Some Moderate\<rparr>"
      Default AcceptEdits "\<lambda>c. toolName c" "\<lambda>r. PlainError ''Connection is destroyed''" "''T''"]
  by (simp add: requiresExplicitPermission_def requestEnhancedPermission_def getSession_def
      isAutoApprovableOperation_def)


section \<open>Circuit breaker transitions\<close>

text \<open>
  Claim C2. A fresh breaker (CLOSED) with \<open>failureThreshold = N\<close>, \<open>N \<ge> 1\<close>, is OPEN after
  exactly \<open>N\<close> consecutive failing calls whose clock readings all lie within one
  monitoring period, and CLOSED after fewer. While OPEN and before \<open>nextAttempt\<close>,
  \<open>execute\<close> throws the fast-failure error, leaves the world of the wrapped function
  untouched (it was not called) and stays OPEN. The first call at or after \<open>nextAttempt\<close>
  is let through in HALF_OPEN with \<open>successes = 0\<close>; from there \<open>successThreshold\<close>
  consecutive successes (the admitted call being the first) close the breaker, fewer
  leave it HALF_OPEN, and a single failure in HALF_OPEN opens it again with
  \<open>nextAttempt\<close> one timeout later.
\<close>

theorem circuit_breaker_transitions:
  "(1 \<le> N \<and> failureThreshold options = int N \<and> length calls = N
      \<and> (\<forall>(clock, fn) \<in> set calls.
             clock_within T0 (T0 + monitoringPeriod options) clock \<and> (\<forall>w. isl (fst (fn w))))
     \<longrightarrow> state (fst (execute_all calls (newCircuitBreaker options) w0)) = OPEN
         \<and> (\<forall>k<N. state (fst (execute_all (take k calls) (newCircuitBreaker options) w0))
                    = CLOSED))
   \<and> (state cb1 = OPEN \<and> now_open clock1 < nextAttempt cb1
     \<longrightarrow> fst (execute clock1 fn1 cb1 w1) = Inl circuit_open_error
         \<and> snd (snd (execute clock1 fn1 cb1 w1)) = w1
         \<and> state (fst (snd (execute clock1 fn1 cb1 w1))) = OPEN
         \<and> nextAttempt (fst (snd (execute clock1 fn1 cb1 w1))) = nextAttempt cb1)
   \<and> (state cb2 = OPEN \<and> nextAttempt cb2 \<le> now_open clock2
     \<longrightarrow> (\<exists>cb'. admit clock2 cb2 = Inr cb' \<and> state cb' = HALF_OPEN \<and> successes cb' = 0))
   \<and> (state cb3 = OPEN \<and> nextAttempt cb3 \<le> now_open clock3
      \<and> (\<forall>w. \<not> isl (fst (fn3 w))) \<and> (\<forall>(clock, fn) \<in> set rest. \<forall>w. \<not> isl (fst (fn w)))
      \<and> 1 + int (length rest) = successThreshold (opts cb3)
     \<longrightarrow> state (fst (execute_all ((clock3, fn3) # rest) cb3 w3)) = CLOSED
         \<and> (\<forall>k<length rest.
               state (fst (execute_all ((clock3, fn3) # take k rest) cb3 w3)) = HALF_OPEN))
   \<and> (state cb4 = HALF_OPEN \<and> isl (fst (fn4 w4))
     \<longrightarrow> state (fst (snd (execute clock4 fn4 cb4 w4))) = OPEN
         \<and> nextAttempt (fst (snd (execute clock4 fn4 cb4 w4)))
             = now_reopen clock4 + timeout (opts cb4))"
proof (intro conjI impI)
  assume a: "1 \<le> N \<and> failureThreshold options = int N \<and> length calls = N
      \<and> (\<forall>(clock, fn) \<in> set calls.
             clock_within T0 (T0 + monitoringPeriod options) clock \<and> (\<forall>w. isl (fst (fn w))))"
  then have a1: "1 \<le> N" and a2: "failureThreshold options = int N" and a3: "length calls = N"
    and a4: "\<forall>(clock, fn) \<in> set calls.
             clock_within T0 (T0 + monitoringPeriod options) clock \<and> (\<forall>w. isl (fst (fn w)))"
    by blast+
  show "state (fst (execute_all calls (newCircuitBreaker options) w0)) = OPEN"
    by (rule threshold_failures_open(1)[OF a1 a2 a3 a4])
  show "\<forall>k<N. state (fst (execute_all (take k calls) (newCircuitBreaker options) w0)) = CLOSED"
    by (rule threshold_failures_open(2)[OF a1 a2 a3 a4])
next
  assume b: "state cb1 = OPEN \<and> now_open clock1 < nextAttempt cb1"
  then have b1: "state cb1 = OPEN" and b2: "now_open clock1 < nextAttempt cb1" by blast+
  show "fst (execute clock1 fn1 cb1 w1) = Inl circuit_open_error"
    by (rule execute_open_fails_fast(1)[OF b1 b2])
  show "snd (snd (execute clock1 fn1 cb1 w1)) = w1"
    by (rule execute_open_fails_fast(2)[OF b1 b2])
  show "state (fst (snd (execute clock1 fn1 cb1 w1))) = OPEN"
    by (rule execute_open_fails_fast(3)[OF b1 b2])
  show "nextAttempt (fst (snd (execute clock1 fn1 cb1 w1))) = nextAttempt cb1"
    by (rule execute_open_fails_fast(4)[OF b1 b2])
next
  assume c: "state cb2 = OPEN \<and> nextAttempt cb2 \<le> now_open clock2"
  then have c1: "state cb2 = OPEN" and c2: "nextAttempt cb2 \<le> now_open clock2" by blast+
  show "\<exists>cb'. admit clock2 cb2 = Inr cb' \<and> state cb' = HALF_OPEN \<and> successes cb' = 0"
    using admit_open_due[OF c1 c2] by blast
next
  assume d: "state cb3 = OPEN \<and> nextAttempt cb3 \<le> now_open clock3
      \<and> (\<forall>w. \<not> isl (fst (fn3 w))) \<and> (\<forall>(clock, fn) \<in> set rest. \<forall>w. \<not> isl (fst (fn w)))
      \<and> 1 + int (length rest) = successThreshold (opts cb3)"
  then have d1: "state cb3 = OPEN" and d2: "nextAttempt cb3 \<le> now_open clock3"
    and d3: "\<forall>w. \<not> isl (fst (fn3 w))"
    and d4: "\<forall>(clock, fn) \<in> set rest. \<forall>w. \<not> isl (fst (fn w))"
    and d5: "1 + int (length rest) = successThreshold (opts cb3)"
    by blast+
  show "state (fst (execute_all ((clock3, fn3) # rest) cb3 w3)) = CLOSED"
    by (rule successes_from_open(2)[OF d1 refl d2 d3 d4 d5])
  show "\<forall>k<length rest.
               state (fst (execute_all ((clock3, fn3) # take k rest) cb3 w3)) = HALF_OPEN"
    using half_open_prefixes[OF d1 d2 d3 d4 d5] by blast
next
  assume e: "state cb4 = HALF_OPEN \<and> isl (fst (fn4 w4))"
  then have e1: "state cb4 = HALF_OPEN" and e2: "isl (fst (fn4 w4))" by blast+
  show "state (fst (snd (execute clock4 fn4 cb4 w4))) = OPEN"
    by (rule execute_failure_half_open(1)[where fn=fn4 and w=w4, OF e1 e2])
  show "nextAttempt (fst (snd (execute clock4 fn4 cb4 w4)))
             = now_reopen clock4 + timeout (opts cb4)"
    by (rule execute_failure_half_open(2)[where fn=fn4 and w=w4, OF e1 e2])
qed


theorem circuit_breaker_transitions_witness:
  "state (fst (execute_all (replicate 8 (at_instant 1000, (\<lambda>w::nat. (Inl (PlainError ''backend down'') :: thrown + unit, Suc w)))) (newCircuitBreaker CLAUDE_SDK_CIRCUIT_OPTIONS) 0)) = OPEN
   \<and> state (fst (execute_all (take 7 (replicate 8 (at_instant 1000, (\<lambda>w::nat. (Inl (PlainError ''backend down'') :: thrown + unit, Suc w))))) (newCircuitBreaker CLAUDE_SDK_CIRCUIT_OPTIONS) 0)) = CLOSED
   \<and> fst (execute (at_instant 5000) (\<lambda>w::nat. (Inr () :: thrown + unit, Suc w)) (forceOpen 1000 None (newCircuitBreaker CLAUDE_SDK_CIRCUIT_OPTIONS)) 0) = Inl circuit_open_error
   \<and> snd (snd (execute (at_instant 5000) (\<lambda>w::nat. (Inr () :: thrown + unit, Suc w)) (forceOpen 1000 None (newCircuitBreaker CLAUDE_SDK_CIRCUIT_OPTIONS)) 0)) = 0
   \<and> (\<exists>cb'. admit (at_instant 11000) (forceOpen 1000 None (newCircuitBreaker CLAUDE_SDK_CIRCUIT_OPTIONS)) = Inr cb' \<and> state cb' = HALF_OPEN \<and> successes cb' = 0)
   \<and> state (fst (execute_all ((at_instant 11000, (\<lambda>w::nat. (Inr () :: thrown + unit, Suc w))) # replicate 2 (at_instant 11001, (\<lambda>w::nat. (Inr () :: thrown + unit, Suc w)))) (forceOpen 1000 None (newCircuitBreaker CLAUDE_SDK_CIRCUIT_OPTIONS)) 0))
       = CLOSED
   \<and> state (fst (execute_all ((at_instant 11000, (\<lambda>w::nat. (Inr () :: thrown + unit, Suc w))) # take 1 (replicate 2 (at_instant 11001, (\<lambda>w::nat. (Inr () :: thrown + unit, Suc w)))))
                (forceOpen 1000 None (newCircuitBreaker CLAUDE_SDK_CIRCUIT_OPTIONS)) 0)) = HALF_OPEN
   \<and> state (fst (snd (execute (at_instant 11002) (\<lambda>w::nat. (Inl (PlainError ''backend down'') :: thrown + unit, Suc w)) (fst (snd (execute (at_instant 11000) (\<lambda>w::nat. (Inr () :: thrown + unit, Suc w)) (forceOpen 1000 None (newCircuitBreaker CLAUDE_SDK_CIRCUIT_OPTIONS)) 0))) 1))) = OPEN"
proof -
  note t = circuit_breaker_transitions [where N = 8 and options = CLAUDE_SDK_CIRCUIT_OPTIONS
      and calls = "replicate 8 (at_instant 1000, (\<lambda>w::nat. (Inl (PlainError ''backend down'') :: thrown + unit, Suc w)))" and ?T0.0 = 1000 and ?w0.0 = 0
      and ?cb1.0 = "(forceOpen 1000 None (newCircuitBreaker CLAUDE_SDK_CIRCUIT_OPTIONS))" and ?clock1.0 = "at_instant 5000" and ?fn1.0 = "(\<lambda>w::nat. (Inr () :: thrown + unit, Suc w))" and ?w1.0 = 0
      and ?cb2.0 = "(forceOpen 1000 None (newCircuitBreaker CLAUDE_SDK_CIRCUIT_OPTIONS))" and ?clock2.0 = "at_instant 11000"
      and ?cb3.0 = "(forceOpen 1000 None (newCircuitBreaker CLAUDE_SDK_CIRCUIT_OPTIONS))" and ?clock3.0 = "at_instant 11000" and ?fn3.0 = "(\<lambda>w::nat. (Inr () :: thrown + unit, Suc w))"
      and rest = "replicate 2 (at_instant 11001, (\<lambda>w::nat. (Inr () :: thrown + unit, Suc w)))" and ?w3.0 = 0
      and ?cb4.0 = "(fst (snd (execute (at_instant 11000) (\<lambda>w::nat. (Inr () :: thrown + unit, Suc w)) (forceOpen 1000 None (newCircuitBreaker CLAUDE_SDK_CIRCUIT_OPTIONS)) 0)))" and ?fn4.0 = "(\<lambda>w::nat. (Inl (PlainError ''backend down'') :: thrown + unit, Suc w))" and ?w4.0 = 1 and ?clock4.0 = "at_instant 11002"]
  have h0: "1 \<le> (8::nat) \<and> failureThreshold CLAUDE_SDK_CIRCUIT_OPTIONS = int 8
      \<and> length (replicate 8 (at_instant 1000, (\<lambda>w::nat. (Inl (PlainError ''backend down'') :: thrown + unit, Suc w)))) = 8
      \<and> (\<forall>(clock, fn) \<in> set (replicate 8 (at_instant 1000, (\<lambda>w::nat. (Inl (PlainError ''backend down'') :: thrown + unit, Suc w)))).
             clock_within 1000 (1000 + monitoringPeriod CLAUDE_SDK_CIRCUIT_OPTIONS) clock
             \<and> (\<forall>w. isl (fst (fn w))))"
    by (simp add: CLAUDE_SDK_CIRCUIT_OPTIONS_def clock_within_def at_instant_def)
  have h1: "state (forceOpen 1000 None (newCircuitBreaker CLAUDE_SDK_CIRCUIT_OPTIONS)) = OPEN \<and> now_open (at_instant 5000) < nextAttempt (forceOpen 1000 None (newCircuitBreaker CLAUDE_SDK_CIRCUIT_OPTIONS))"
    by (simp add: forceOpen_def newCircuitBreaker_def CLAUDE_SDK_CIRCUIT_OPTIONS_def at_instant_def)
  have h2: "state (forceOpen 1000 None (newCircuitBreaker CLAUDE_SDK_CIRCUIT_OPTIONS)) = OPEN \<and> nextAttempt (forceOpen 1000 None (newCircuitBreaker CLAUDE_SDK_CIRCUIT_OPTIONS)) \<le> now_open (at_instant 11000)"
    by (simp add: forceOpen_def newCircuitBreaker_def CLAUDE_SDK_CIRCUIT_OPTIONS_def at_instant_def)
  have h3: "state (forceOpen 1000 None (newCircuitBreaker CLAUDE_SDK_CIRCUIT_OPTIONS)) = OPEN \<and> nextAttempt (forceOpen 1000 None (newCircuitBreaker CLAUDE_SDK_CIRCUIT_OPTIONS)) \<le> now_open (at_instant 11000)
      \<and> (\<forall>w. \<not> isl (fst ((\<lambda>w::nat. (Inr () :: thrown + unit, Suc w)) w)))
      \<and> (\<forall>(clock, fn) \<in> set (replicate 2 (at_instant 11001, (\<lambda>w::nat. (Inr () :: thrown + unit, Suc w)))). \<forall>w. \<not> isl (fst (fn w)))
      \<and> 1 + int (length (replicate 2 (at_instant 11001, (\<lambda>w::nat. (Inr () :: thrown + unit, Suc w))))) = successThreshold (opts (forceOpen 1000 None (newCircuitBreaker CLAUDE_SDK_CIRCUIT_OPTIONS)))"
    by (simp add: forceOpen_def newCircuitBreaker_def CLAUDE_SDK_CIRCUIT_OPTIONS_def at_instant_def)
  have h4: "state (fst (snd (execute (at_instant 11000) (\<lambda>w::nat. (Inr () :: thrown + unit, Suc w)) (forceOpen 1000 None (newCircuitBreaker CLAUDE_SDK_CIRCUIT_OPTIONS)) 0))) = HALF_OPEN \<and> isl (fst ((\<lambda>w::nat. (Inl (PlainError ''backend down'') :: thrown + unit, Suc w)) (1::nat)))"
    by (simp add: execute_def admit_def cleanupOldFailures_def onSuccess_def Let_def
        forceOpen_def newCircuitBreaker_def CLAUDE_SDK_CIRCUIT_OPTIONS_def at_instant_def)
  from t h0 have c0: "state (fst (execute_all (replicate 8 (at_instant 1000, (\<lambda>w::nat. (Inl (PlainError ''backend down'') :: thrown + unit, Suc w)))) (newCircuitBreaker CLAUDE_SDK_CIRCUIT_OPTIONS) 0)) = OPEN"
    and c0': "\<forall>k<8. state (fst (execute_all (take k (replicate 8 (at_instant 1000, (\<lambda>w::nat. (Inl (PlainError ''backend down'') :: thrown + unit, Suc w))))) (newCircuitBreaker CLAUDE_SDK_CIRCUIT_OPTIONS) 0))
                 = CLOSED"
    by blast+
  have c0'': "state (fst (execute_all (take 7 (replicate 8 (at_instant 1000, (\<lambda>w::nat. (Inl (PlainError ''backend down'') :: thrown + unit, Suc w))))) (newCircuitBreaker CLAUDE_SDK_CIRCUIT_OPTIONS) 0))
      = CLOSED"
    using c0'[rule_format, of 7] by simp
  from t h1 have c1: "fst (execute (at_instant 5000) (\<lambda>w::nat. (Inr () :: thrown + unit, Suc w)) (forceOpen 1000 None (newCircuitBreaker CLAUDE_SDK_CIRCUIT_OPTIONS)) 0) = Inl circuit_open_error"
    and c1': "snd (snd (execute (at_instant 5000) (\<lambda>w::nat. (Inr () :: thrown + unit, Suc w)) (forceOpen 1000 None (newCircuitBreaker CLAUDE_SDK_CIRCUIT_OPTIONS)) 0)) = 0"
    by blast+
  from t h2 have c2: "\<exists>cb'. admit (at_instant 11000) (forceOpen 1000 None (newCircuitBreaker CLAUDE_SDK_CIRCUIT_OPTIONS)) = Inr cb' \<and> state cb' = HALF_OPEN
      \<and> successes cb' = 0"
    by blast
  from t h3 have c3: "state (fst (execute_all
        ((at_instant 11000, (\<lambda>w::nat. (Inr () :: thrown + unit, Suc w))) # replicate 2 (at_instant 11001, (\<lambda>w::nat. (Inr () :: thrown + unit, Suc w)))) (forceOpen 1000 None (newCircuitBreaker CLAUDE_SDK_CIRCUIT_OPTIONS)) 0)) = CLOSED"
    and c3': "\<forall>k<length (replicate 2 (at_instant 11001, (\<lambda>w::nat. (Inr () :: thrown + unit, Suc w)))).
        state (fst (execute_all ((at_instant 11000, (\<lambda>w::nat. (Inr () :: thrown + unit, Suc w))) # take k (replicate 2 (at_instant 11001, (\<lambda>w::nat. (Inr () :: thrown + unit, Suc w)))))
                (forceOpen 1000 None (newCircuitBreaker CLAUDE_SDK_CIRCUIT_OPTIONS)) 0)) = HALF_OPEN"
    by blast+
  have c3'': "state (fst (execute_all
        ((at_instant 11000, (\<lambda>w::nat. (Inr () :: thrown + unit, Suc w))) # take 1 (replicate 2 (at_instant 11001, (\<lambda>w::nat. (Inr () :: thrown + unit, Suc w))))) (forceOpen 1000 None (newCircuitBreaker CLAUDE_SDK_CIRCUIT_OPTIONS)) 0)) = HALF_OPEN"
    using c3'[rule_format, of 1] by simp
  from t h4 have c4: "state (fst (snd (execute (at_instant 11002) (\<lambda>w::nat. (Inl (PlainError ''backend down'') :: thrown + unit, Suc w)) (fst (snd (execute (at_instant 11000) (\<lambda>w::nat. (Inr () :: thrown + unit, Suc w)) (forceOpen 1000 None (newCircuitBreaker CLAUDE_SDK_CIRCUIT_OPTIONS)) 0))) 1))) = OPEN"
    by blast
  from c0 c0'' c1 c1' c2 c3 c3'' c4 show ?thesis by blast
qed


section \<open>Context monitor accounting\<close>




section \<open>Synthesized plans\<close>

text \<open>
  Claim C7, as stated, fails in the text of the first entry: for a prompt with three
  estimated steps (a multi-step word such as \<open>first\<close> or \<open>then\<close> adds two to the base of
  one) the plan is not the one whose first entry reads \<open>Analyze requirements\<close>.
\<close>

theorem generatePlan_title_counterexample:
  "estimatedSteps (analyzePromptComplexity ''first fix it, then test it'') \<ge> 3
   \<and> needsPlan (analyzePromptComplexity ''first fix it, then test it'')
   \<and> generatePlan (analyzePromptComplexity ''first fix it, then test it'')
       \<noteq> [\<lparr>content = ''Analyze requirements'', priority = high, status = in_progress\<rparr>,
           \<lparr>content = ''Execute main implementation'', priority = high, status = pending\<rparr>,
           \<lparr>content = ''Validate and finalize changes'', priority = medium, status = pending\<rparr>]"
  by (simp add: analyzePromptComplexity_def generatePlan_def toLowerCase_def lower_char_def
      complexKeywords_def multiStepIndicators_def PROMPT_COMPLEXITY_THRESHOLD_def Let_def)

text \<open>
  Claim C7, amended. With three or more estimated steps the plan has exactly three
  entries: \<open>Analyze requirements and approach\<close> (high, in progress),
  \<open>Execute main implementation\<close> (high, pending) and \<open>Validate and finalize changes\<close>
  (medium, pending). With fewer steps it has exactly one entry, whose content is the
  summary of the analysis, high and in progress. Three or more estimated steps always
  make the analysis ask for a plan, and the summary of an analysis that asks for a
  plan is the prompt summary. For a registered session \<open>generateAndSendPlan\<close> stores
  that plan in the session and sends it as a \<open>plan\<close> update.
\<close>

theorem generatePlan_entries:
  "(estimatedSteps cx \<ge> 3 \<longrightarrow>
      generatePlan cx
        = [\<lparr>content = ''Analyze requirements and approach'', priority = high,
             status = in_progress\<rparr>,
           \<lparr>content = ''Execute main implementation'', priority = high, status = pending\<rparr>,
           \<lparr>content = ''Validate and finalize changes'', priority = medium,
             status = pending\<rparr>])
   \<and> (estimatedSteps cx < 3 \<longrightarrow>
      generatePlan cx = [\<lparr>content = summary cx, priority = high, status = in_progress\<rparr>])
   \<and> (estimatedSteps (analyzePromptComplexity p) \<ge> 3 \<longrightarrow> needsPlan (analyzePromptComplexity p))
   \<and> (needsPlan (analyzePromptComplexity p) \<longrightarrow>
      summary (analyzePromptComplexity p) = generatePromptSummary p True)
   \<and> (sessions st sid = Some session \<longrightarrow>
      (\<exists>st'. generateAndSendPlan sid cx st = Inr st'
         \<and> map_option currentPlan (sessions st' sid) = Some (Some (generatePlan cx))
         \<and> sent st' = sent st @ [(sid, plan (generatePlan cx))]))"
  using steps_need_plan[of p] plan_summary[of p] generateAndSendPlan_registered[of st sid session cx]
  by (simp add: generatePlan_def)

text \<open>
  The two branches on concrete prompts: one with three estimated steps, and one with
  two, which asks for a plan because it holds two of the complex keywords.
\<close>

theorem generatePlan_entries_witness:
  "estimatedSteps (analyzePromptComplexity ''first fix it, then test it'') \<ge> 3
   \<and> generatePlan (analyzePromptComplexity ''first fix it, then test it'')
       = [\<lparr>content = ''Analyze requirements and approach'', priority = high,
            status = in_progress\<rparr>,
          \<lparr>content = ''Execute main implementation'', priority = high, status = pending\<rparr>,
          \<lparr>content = ''Validate and finalize changes'', priority = medium, status = pending\<rparr>]
   \<and> needsPlan (analyzePromptComplexity ''create it and build it'')
   \<and> estimatedSteps (analyzePromptComplexity ''create it and build it'') < 3
   \<and> generatePlan (analyzePromptComplexity ''create it and build it'')
       = [\<lparr>content = ''create it and build it'', priority = high, status = in_progress\<rparr>]"
proof -
  have e1: "estimatedSteps (analyzePromptComplexity ''first fix it, then test it'') \<ge> 3"
    by (simp add: analyzePromptComplexity_def toLowerCase_def lower_char_def
        complexKeywords_def multiStepIndicators_def PROMPT_COMPLEXITY_THRESHOLD_def Let_def)
  have e2: "estimatedSteps (analyzePromptComplexity ''create it and build it'') < 3"
    and n2: "needsPlan (analyzePromptComplexity ''create it and build it'')"
    and s2: "summary (analyzePromptComplexity ''create it and build it'') = ''create it and build it''"
    by (simp_all add: analyzePromptComplexity_def toLowerCase_def lower_char_def
        complexKeywords_def multiStepIndicators_def PROMPT_COMPLEXITY_THRESHOLD_def Let_def
        generatePromptSummary_def split_ws_def is_space_def)
  note t1 = generatePlan_entries [of "analyzePromptComplexity ''first fix it, then test it''"]
  note t2 = generatePlan_entries [of "analyzePromptComplexity ''create it and build it''"]
  have p1: "generatePlan (analyzePromptComplexity ''first fix it, then test it'')
       = [\<lparr>content = ''Analyze requirements and approach'', priority = high,
            status = in_progress\<rparr>,
          \<lparr>content = ''Execute main implementation'', priority = high, status = pending\<rparr>,
          \<lparr>content = ''Validate and finalize changes'', priority = medium, status = pending\<rparr>]"
    using t1 e1 by blast
  have p2: "generatePlan (analyzePromptComplexity ''create it and build it'')
       = [\<lparr>content = summary (analyzePromptComplexity ''create it and build it''),
            priority = high, status = in_progress\<rparr>]"
    using t2 e2 by blast
  show ?thesis using e1 p1 n2 e2 p2 unfolding s2 by blast
qed

section \<open>Permission markers in the prompt\<close>

text \<open>
  Claim C9, as stated, fails: the marker that occurs first does not win. In the text
  below \<open>[ACP:PERMISSION:BYPASS]\<close> is at index 0 and
  \<open>[ACP:PERMISSION:ACCEPT_EDITS]\<close> at index 24, and the mode chosen is
  \<open>acceptEdits\<close>.
\<close>

theorem parsePromptPermissionMode_order_counterexample:
  "spec_index_of ''[ACP:PERMISSION:BYPASS] [ACP:PERMISSION:ACCEPT_EDITS]'' ''[ACP:PERMISSION:BYPASS]''
     = Some 0
   \<and> spec_index_of ''[ACP:PERMISSION:BYPASS] [ACP:PERMISSION:ACCEPT_EDITS]''
       ''[ACP:PERMISSION:ACCEPT_EDITS]'' = Some 24
   \<and> spec_index_of ''[ACP:PERMISSION:BYPASS] [ACP:PERMISSION:ACCEPT_EDITS]''
       ''[ACP:PERMISSION:DEFAULT]'' = None
   \<and> parsePromptPermissionMode Default ''[ACP:PERMISSION:BYPASS] [ACP:PERMISSION:ACCEPT_EDITS]''
       (Some Default) = AcceptEdits"
  by (simp add: parsePromptPermissionMode_def)

text \<open>
  Claim C9, amended. The markers are looked up in a fixed order, wherever they stand
  in the text: \<open>[ACP:PERMISSION:ACCEPT_EDITS]\<close> gives \<open>acceptEdits\<close>; otherwise
  \<open>[ACP:PERMISSION:BYPASS]\<close> gives \<open>bypassPermissions\<close>; otherwise
  \<open>[ACP:PERMISSION:DEFAULT]\<close> gives \<open>default\<close>; with no marker the mode is the session's
  current one, or the agent's default when the session has none. After the turn of a
  registered session its permission mode is that mode, and the backend was queried at
  most once in the turn, with the prompt text and that mode.
\<close>

theorem parsePromptPermissionMode_priority:
  "parsePromptPermissionMode d promptText cur
     = (if (\<exists>a b. promptText = a @ ''[ACP:PERMISSION:ACCEPT_EDITS]'' @ b) then AcceptEdits
        else if (\<exists>a b. promptText = a @ ''[ACP:PERMISSION:BYPASS]'' @ b) then BypassPermissions
        else if (\<exists>a b. promptText = a @ ''[ACP:PERMISSION:DEFAULT]'' @ b) then Default
        else (case cur of None \<Rightarrow> d | Some m \<Rightarrow> m))
   \<and> (sessions st sid = Some s0
     \<longrightarrow> map_option permissionMode
           (sessions (snd (executePrompt cfg env blocks session sid st)) sid)
         = Some (Some (parsePromptPermissionMode (defaultPermissionMode cfg)
                         (promptTextOf blocks) (permissionMode session))))
   \<and> (queryLog (snd (executePrompt cfg env blocks session sid st)) = queryLog st
      \<or> queryLog (snd (executePrompt cfg env blocks session sid st))
          = queryLog st @ [(promptTextOf blocks,
               parsePromptPermissionMode (defaultPermissionMode cfg) (promptTextOf blocks)
                 (permissionMode session),
               claudeSessionId session)])"
proof (intro conjI impI)
  show "parsePromptPermissionMode d promptText cur
     = (if (\<exists>a b. promptText = a @ ''[ACP:PERMISSION:ACCEPT_EDITS]'' @ b) then AcceptEdits
        else if (\<exists>a b. promptText = a @ ''[ACP:PERMISSION:BYPASS]'' @ b) then BypassPermissions
        else if (\<exists>a b. promptText = a @ ''[ACP:PERMISSION:DEFAULT]'' @ b) then Default
        else (case cur of None \<Rightarrow> d | Some m \<Rightarrow> m))"
    unfolding parsePromptPermissionMode_def includes_str_iff by (rule refl)
next
  assume "sessions st sid = Some s0"
  then show "map_option permissionMode
           (sessions (snd (executePrompt cfg env blocks session sid st)) sid)
         = Some (Some (parsePromptPermissionMode (defaultPermissionMode cfg)
                         (promptTextOf blocks) (permissionMode session)))"
    by (rule executePrompt_mode)
next
  show "queryLog (snd (executePrompt cfg env blocks session sid st)) = queryLog st
      \<or> queryLog (snd (executePrompt cfg env blocks session sid st))
          = queryLog st @ [(promptTextOf blocks,
               parsePromptPermissionMode (defaultPermissionMode cfg) (promptTextOf blocks)
                 (permissionMode session),
               claudeSessionId session)]"
    unfolding executePrompt_queryLog by (rule startTurn_queryLog)
qed

text \<open>
  A session in \<open>acceptEdits\<close> whose prompt names \<open>DEFAULT\<close> first and \<open>BYPASS\<close> second
  ends the turn in \<open>bypassPermissions\<close>.
\<close>

theorem parsePromptPermissionMode_priority_witness:
  "map_option permissionMode
     (sessions (snd (executePrompt
        (\<lparr>defaultPermissionMode = Default,
        handleMessage = (\<lambda>m. ([agent_message_chunk m], None)),
        messageSessionId = (\<lambda>m. None)\<rparr> :: string AgentConfig)
        \<lparr>promptSlot = True, contextWarning = None, querySlot = True,
        breakerClock = at_instant 1000, queryResult = Inl (PlainError ''boom''),
        abortedAt = (\<lambda>i. False)\<rparr>
        [TextBlock ''[ACP:PERMISSION:DEFAULT] then [ACP:PERMISSION:BYPASS]'']
        \<lparr>pendingPrompt = False, abortController = Some False, claudeSessionId = None,
        permissionMode = Some AcceptEdits, currentPlan = None, thoughtStreaming = True\<rparr>
        ''S''
        \<lparr>sessions = [''S'' \<mapsto> \<lparr>pendingPrompt = False, abortController = Some False, claudeSessionId = None,
        permissionMode = Some AcceptEdits, currentPlan = None, thoughtStreaming = True\<rparr>],
        claudeSDKCircuitBreaker = newCircuitBreaker CLAUDE_SDK_CIRCUIT_OPTIONS,
        queryLog = [], sent = []\<rparr>)) ''S'')
     = Some (Some BypassPermissions)"
proof -
  have h: "sessions \<lparr>sessions = [''S'' \<mapsto> \<lparr>pendingPrompt = False, abortController = Some False, claudeSessionId = None,
        permissionMode = Some AcceptEdits, currentPlan = None, thoughtStreaming = True\<rparr>],
        claudeSDKCircuitBreaker = newCircuitBreaker CLAUDE_SDK_CIRCUIT_OPTIONS,
        queryLog = [], sent = []\<rparr> ''S''
      = Some \<lparr>pendingPrompt = False, abortController = Some False, claudeSessionId = None,
        permissionMode = Some AcceptEdits, currentPlan = None, thoughtStreaming = True\<rparr>"
    by simp
  have m: "parsePromptPermissionMode
      (defaultPermissionMode (\<lparr>defaultPermissionMode = Default,
        handleMessage = (\<lambda>m. ([agent_message_chunk m], None)),
        messageSessionId = (\<lambda>m. None)\<rparr> :: string AgentConfig))
      (promptTextOf [TextBlock ''[ACP:PERMISSION:DEFAULT] then [ACP:PERMISSION:BYPASS]''])
      (permissionMode \<lparr>pendingPrompt = False, abortController = Some False, claudeSessionId = None,
        permissionMode = Some AcceptEdits, currentPlan = None, thoughtStreaming = True\<rparr>) = BypassPermissions"
    by (simp add: parsePromptPermissionMode_def promptTextOf_def)
  show ?thesis
    using parsePromptPermissionMode_priority [of Default "[]" None
        "\<lparr>sessions = [''S'' \<mapsto> \<lparr>pendingPrompt = False, abortController = Some False, claudeSessionId = None,
        permissionMode = Some AcceptEdits, currentPlan = None, thoughtStreaming = True\<rparr>],
        claudeSDKCircuitBreaker = newCircuitBreaker CLAUDE_SDK_CIRCUIT_OPTIONS,
        queryLog = [], sent = []\<rparr>"
        "''S''"
        "\<lparr>pendingPrompt = False, abortController = Some False, claudeSessionId = None,
        permissionMode = Some AcceptEdits, currentPlan = None, thoughtStreaming = True\<rparr>"
        "\<lparr>defaultPermissionMode = Default,
        handleMessage = (\<lambda>m. ([agent_message_chunk m], None)),
        messageSessionId = (\<lambda>m. None)\<rparr> :: string AgentConfig"
        "\<lparr>promptSlot = True, contextWarning = None, querySlot = True,
        breakerClock = at_instant 1000, queryResult = Inl (PlainError ''boom''),
        abortedAt = (\<lambda>i. False)\<rparr>"
        "[TextBlock ''[ACP:PERMISSION:DEFAULT] then [ACP:PERMISSION:BYPASS]'']"
        "\<lparr>pendingPrompt = False, abortController = Some False, claudeSessionId = None,
        permissionMode = Some AcceptEdits, currentPlan = None, thoughtStreaming = True\<rparr>"] h
    unfolding m by blast
qed

section \<open>Errors of a turn are reported in band\<close>



section \<open>A prompt for a busy session\<close>

text \<open>
  Claim C1 asks that a \<open>session/prompt\<close> request arriving for a session with a turn in
  flight be answered with the error -32002, \<open>Session busy: <sessionId>\<close>, which is what
  \<open>RequestError.sessionBusy\<close> builds. The connection hands a message to the agent only
  when the handler of the message before it has returned, so \<open>prompt\<close> never finds a
  turn in flight: every response to a prompt request is a result or the error -32603,
  \<open>Internal error\<close>, never -32002; and from a state in which no session has a prompt
  pending, no response is the one \<open>prompt\<close> gives for a busy session, and no session has
  a prompt pending afterwards.
\<close>

theorem receiveMessages_never_busy:
  "(\<forall>x \<in> set (fst (receiveMessages cfg incoming st)).
       (\<exists>reason. snd x = ResultOf reason)
       \<or> (\<exists>details. snd x = ErrorOf (- 32603) ''Internal error'' details))
   \<and> (idle st
       \<longrightarrow> idle (snd (receiveMessages cfg incoming st))
           \<and> (\<forall>x \<in> set (fst (receiveMessages cfg incoming st)).
                 snd x \<noteq> ErrorOf (- 32603) ''Internal error''
                            (Some ''Session is busy processing another prompt'')))"
proof (induction cfg incoming st rule: receiveMessages.induct)
  case (1 cfg st)
  then show ?case by simp
next
  case (2 cfg requestId sid blocks env rest st)
  obtain outcome st1 where p: "prompt cfg env sid blocks st = (outcome, st1)"
    by (cases "prompt cfg env sid blocks st")
  obtain responses st2 where r: "receiveMessages cfg rest st1 = (responses, st2)"
    by (cases "receiveMessages cfg rest st1")
  note IH = 2 [OF p [symmetric], unfolded r, simplified]
  have eq: "receiveMessages cfg ((PromptRequest requestId sid blocks, env) # rest) st
      = ((requestId, tryCallHandler outcome) # responses, st2)"
    using p r by simp
  have shape: "(\<exists>reason. tryCallHandler outcome = ResultOf reason)
       \<or> (\<exists>details. tryCallHandler outcome = ErrorOf (- 32603) ''Internal error'' details)"
    using tryCallHandler_prompt [of cfg env sid blocks st] p by simp
  have out: "(\<exists>reason. outcome = Inr reason) \<or> (\<exists>message. outcome = Inl (PlainError message))"
    using prompt_outcome [of cfg env sid blocks st] p by simp
  have notbusy: "tryCallHandler outcome \<noteq> ErrorOf (- 32603) ''Internal error''
                            (Some ''Session is busy processing another prompt'')"
    if "idle st"
  proof
    assume "tryCallHandler outcome = ErrorOf (- 32603) ''Internal error''
                            (Some ''Session is busy processing another prompt'')"
    from tryCallHandler_busy [OF this] out
    have "outcome = Inl (PlainError ''Session is busy processing another prompt'')" by auto
    then show False using prompt_not_busy [OF that, of cfg env sid blocks] p by simp
  qed
  have idle1: "idle st1" if "idle st"
    using prompt_idle [OF that, of cfg env sid blocks] p by simp
  show ?case
    unfolding eq using IH shape notbusy idle1 by auto
next
  case (3 cfg sid env rest st)
  show ?case
    using 3 cancel_idle [of st sid] by auto
qed

text \<open>
  Two prompt requests for the session \<open>S\<close>, the second written while the turn of the
  first runs: both are served, in order.
\<close>

theorem receiveMessages_never_busy_witness:
  "idle \<lparr>sessions = [''S'' \<mapsto> \<lparr>pendingPrompt = False, abortController = None, claudeSessionId = None,
        permissionMode = Some Default, currentPlan = None, thoughtStreaming = True\<rparr>],
        claudeSDKCircuitBreaker = newCircuitBreaker CLAUDE_SDK_CIRCUIT_OPTIONS,
        queryLog = [], sent = []\<rparr>
   \<and> fst (receiveMessages
        (\<lparr>defaultPermissionMode = Default,
        handleMessage = (\<lambda>m. ([agent_message_chunk m], None)),
        messageSessionId = (\<lambda>m. None)\<rparr> :: string AgentConfig)
        [(PromptRequest (IdNumber 1) ''S'' [TextBlock ''hi''],
          \<lparr>promptSlot = True, contextWarning = None, querySlot = True,
        breakerClock = at_instant 1000, queryResult = Inr (MessageStream [''a''] None),
        abortedAt = (\<lambda>i. False)\<rparr>),
         (PromptRequest (IdNumber 2) ''S'' [TextBlock ''hi''],
          \<lparr>promptSlot = True, contextWarning = None, querySlot = True,
        breakerClock = at_instant 1000, queryResult = Inr (MessageStream [''a''] None),
        abortedAt = (\<lambda>i. False)\<rparr>)]
        \<lparr>sessions = [''S'' \<mapsto> \<lparr>pendingPrompt = False, abortController = None, claudeSessionId = None,
        permissionMode = Some Default, currentPlan = None, thoughtStreaming = True\<rparr>],
        claudeSDKCircuitBreaker = newCircuitBreaker CLAUDE_SDK_CIRCUIT_OPTIONS,
        queryLog = [], sent = []\<rparr>)
      = [(IdNumber 1, ResultOf end_turn), (IdNumber 2, ResultOf end_turn)]
   \<and> toResult (sessionBusy (Some ''S''))
      = (ErrorOf (- 32002) ''Session busy: S'' (Some ''S'') :: StopReason Result)"
  using receiveMessages_never_busy [of
      "\<lparr>defaultPermissionMode = Default,
        handleMessage = (\<lambda>m. ([agent_message_chunk m], None)),
        messageSessionId = (\<lambda>m. None)\<rparr> :: string AgentConfig"
      "[(PromptRequest (IdNumber 1) ''S'' [TextBlock ''hi''],
          \<lparr>promptSlot = True, contextWarning = None, querySlot = True,
        breakerClock = at_instant 1000, queryResult = Inr (MessageStream [''a''] None),
        abortedAt = (\<lambda>i. False)\<rparr>),
         (PromptRequest (IdNumber 2) ''S'' [TextBlock ''hi''],
          \<lparr>promptSlot = True, contextWarning = None, querySlot = True,
        breakerClock = at_instant 1000, queryResult = Inr (MessageStream [''a''] None),
        abortedAt = (\<lambda>i. False)\<rparr>)]"
      "\<lparr>sessions = [''S'' \<mapsto> \<lparr>pendingPrompt = False, abortController = None, claudeSessionId = None,
        permissionMode = Some Default, currentPlan = None, thoughtStreaming = True\<rparr>],
        claudeSDKCircuitBreaker = newCircuitBreaker CLAUDE_SDK_CIRCUIT_OPTIONS,
        queryLog = [], sent = []\<rparr>"]
  by (simp add: idle_def prompt_def getSession_def executePrompt_def finishTurn_def
      catchTurn_def sessionBusy_def newRequestError_def
      startTurn_def Let_def promptTextOf_def
      parsePromptPermissionMode_def analyzePromptComplexity_def toLowerCase_def lower_char_def
      complexKeywords_def multiStepIndicators_def PROMPT_COMPLEXITY_THRESHOLD_def
      writeSession_def execute_def admit_def cleanupOldFailures_def onFailure_def onSuccess_def
      newCircuitBreaker_def CLAUDE_SDK_CIRCUIT_OPTIONS_def at_instant_def generatePromptSummary_def
      forceOpen_def isAborted_def)

section \<open>Input lines that do not parse\<close>

text \<open>
  Claim C8, as stated, fails in the \<open>id\<close>: the response to a line that does not parse
  carries the string \<open>parse-error\<close>, not \<open>null\<close>.
\<close>

theorem sendParseError_id_counterexample:
  "processLines (\<lambda>s. Inl ''Unexpected end of JSON input'' :: string + unit) (\<lambda>j. ([] :: unit list))
      [''{'']
     = [WireError (IdString ''parse-error'') (- 32700) ''Parse error''
          ''Unexpected end of JSON input'']
   \<and> processLines (\<lambda>s. Inl ''Unexpected end of JSON input'' :: string + unit)
        (\<lambda>j. ([] :: unit list)) [''{'']
     \<noteq> [WireError IdNull (- 32700) ''Parse error'' ''Unexpected end of JSON input'']"
  by (simp add: sendParseError_def trim_def is_space_def)

text \<open>
  Claim C8, amended. A non-empty line (after trimming) that does not parse is
  answered with one error response of \<open>id\<close> the string \<open>parse-error\<close>, code -32700,
  message \<open>Parse error\<close> and the parser's message as data, and the lines after it are
  processed as they would be alone; what a chunk adds to the output is what its
  complete lines give, in order.
\<close>

theorem parse_error_response:
  "(trim line \<noteq> [] \<and> parse (trim line) = Inl msg
     \<longrightarrow> processLines parse pm (line # rest)
           = WireError (IdString ''parse-error'') (- 32700) ''Parse error'' msg
             # processLines parse pm rest)
   \<and> processLines parse pm (xs @ ys) = processLines parse pm xs @ processLines parse pm ys
   \<and> snd (receiveChunk EOL parse pm conn chunk)
       = snd conn @ processLines parse pm (butlast (split_str (fst conn @ chunk) EOL))"
  by (simp add: sendParseError_def processLines_append receiveChunk_def Let_def)

text \<open>
  A line that does not parse, followed by one that does.
\<close>

theorem parse_error_response_witness:
  "trim '' {oops '' = ''{oops''
   \<and> processLines (\<lambda>s. if s = ''{}'' then Inr () else Inl ''Unexpected token o in JSON'')
        (\<lambda>j. [''response'']) ['' {oops '', ''{}'']
     = [WireError (IdString ''parse-error'') (- 32700) ''Parse error''
          ''Unexpected token o in JSON'',
        WireOther ''response'']"
  using parse_error_response [of "'' {oops ''"
      "\<lambda>s. if s = ''{}'' then Inr () else Inl ''Unexpected token o in JSON''"
      "''Unexpected token o in JSON''" "\<lambda>j. [''response'']" "[''{}'']"]
  by (simp add: trim_def is_space_def)

end
